theory Spec2Isabelle
  imports Complex_Main
begin

section \<open>Capture controller (src/app.js): data model\<close>

text \<open>
  JavaScript numbers are modelled in exact arithmetic: the intrinsic video size
  (\<open>videoWidth\<close>, \<open>videoHeight\<close>, unsigned integers of the media element) as
  \<open>nat\<close>, layout sizes and canvas coordinates as \<open>real\<close>. Where the source would
  produce a non-finite number (a division by a zero layout size) the model says so
  explicitly instead of computing with HOL's \<open>x / 0 = 0\<close>.
\<close>

text \<open>The part of the video element that \<open>capturePhoto\<close> reads: the intrinsic size and
  the size of \<open>getBoundingClientRect()\<close>.\<close>

record video_el =
  videoWidth :: nat
  videoHeight :: nat
  rect_width :: real
  rect_height :: real

section \<open>JSON values and the upload response\<close>

text \<open>A parsed JSON document, as \<open>JSON.parse\<close> and \<open>response.json()\<close> return it. The
  members of an object are listed in the order they were written; a repeated key
  takes its last value.\<close>

datatype json =
    JNull
  | JBool bool
  | JNum real
  | JStr string
  | JArr "json list"
  | JObj "(string \<times> json) list"

text \<open>JavaScript truthiness of a parsed value.\<close>

fun truthy :: "json \<Rightarrow> bool" where
  "truthy JNull = False"
| "truthy (JBool b) = b"
| "truthy (JNum x) = (x \<noteq> 0)"
| "truthy (JStr s) = (s \<noteq> [])"
| "truthy (JArr _) = True"
| "truthy (JObj _) = True"

text \<open>Reading a property \<open>v.k\<close> of a parsed value: a \<open>TypeError\<close> on \<open>null\<close>, the member
  of an object, \<open>undefined\<close> otherwise (none of the keys the controller reads is a
  built-in property of a string, number, boolean or array).\<close>

datatype 'a js_access = Threw | Undefined | Value 'a

fun get_prop :: "json \<Rightarrow> string \<Rightarrow> json js_access" where
  "get_prop JNull k = Threw"
| "get_prop (JObj kvs) k = (case map_of (rev kvs) k of None \<Rightarrow> Undefined | Some v \<Rightarrow> Value v)"
| "get_prop _ k = Undefined"

text \<open>Optional chaining \<open>v?.k\<close>, with \<open>None\<close> for \<open>undefined\<close>.\<close>

fun opt_prop :: "json option \<Rightarrow> string \<Rightarrow> json option" where
  "opt_prop None k = None"
| "opt_prop (Some v) k = (case get_prop v k of Value w \<Rightarrow> Some w | _ \<Rightarrow> None)"

text \<open>The HTTP response of the upload: the status, the body text and what
  \<open>JSON.parse\<close> makes of that text (\<open>None\<close> when it throws). \<open>response.ok\<close> is a
  status from 200 to 299.\<close>

record response =
  status :: nat
  body_text :: string
  body_json :: "json option"

definition response_ok :: "response \<Rightarrow> bool" where
  "response_ok r = (200 \<le> status r \<and> status r \<le> 299)"

text \<open>What \<open>fetch\<close> settles with: a rejection (no HTTP exchange completed) carrying the
  platform's error message, or a response.\<close>

datatype fetch_result = NetworkError string | Response response

text \<open>The text put after 'HTTP <status>: ' in the error of a non-success response
  (lines 324-328): the raw body, the \<open>erro\<close> member, or \<open>JSON.stringify\<close> of the
  parsed body.\<close>

datatype error_details = RawText string | ErroValue json | Stringified json

text \<open>\<open>error.message\<close> of what \<open>analyzePhoto\<close> catches:
  \<^item> \<open>HttpFailure st d\<close>: 'Falha na comunicacao com a API (HTTP st): d' (line 330)
  \<^item> \<open>ErroField v\<close>: \<open>new Error(result.erro)\<close>, the \<open>erro\<close> member as a string (line 336)
  \<^item> \<open>NetworkFailure m\<close>: the rejection of \<open>fetch\<close>
  \<^item> \<open>InvalidJson\<close>: the rejection of \<open>response.json()\<close>
  \<^item> \<open>NullResult\<close>: the \<open>TypeError\<close> of reading \<open>erro\<close> from \<open>null\<close>.\<close>

datatype err_message =
    HttpFailure nat error_details
  | ErroField json
  | NetworkFailure string
  | InvalidJson
  | NullResult

text \<open>The user notices of the controller (every \<open>alert(...)\<close> of the source):
  \<^item> \<open>CameraNotReady\<close>: 'Camera nao esta pronta. Aguarde um momento.' (capturePhoto)
  \<^item> \<open>ApiUnavailable\<close>: 'API de analise nao esta disponivel. Verifique a conexao.'
  \<^item> \<open>AnalysisFailed m\<close>: the template 'Erro na analise: ' followed by \<open>error.message\<close>
  \<^item> \<open>PreviewFailed\<close>: 'Erro ao gerar pre-visualizacao.'
  \<^item> \<open>ReportSaved\<close>: 'Analise salva com sucesso como arquivo TXT!'
  (the source texts carry Portuguese diacritics).\<close>

datatype notice =
    CameraNotReady
  | ApiUnavailable
  | AnalysisFailed err_message
  | PreviewFailed
  | ReportSaved

text \<open>The source rectangle and destination rectangle of \<open>ctx.drawImage\<close>.\<close>

record draw_args =
  sx :: real
  sy :: real
  sWidth :: real
  sHeight :: real
  dx :: real
  dy :: real
  dWidth :: real
  dHeight :: real

text \<open>What the controller does to the page and the network, in program order. Object
  URLs are numbered in the order \<open>URL.createObjectURL\<close> hands them out (each call
  returns a new one); a blob is named by a number.\<close>

datatype effect =
    Alert notice
  | ConsoleError
  | SetCaptureDisabled bool
  | ShowLoading bool
  | CanvasSetWidth nat
  | CanvasSetHeight nat
  | CtxSave
  | CtxBeginPath
  | CtxEllipse real real real real real real real
  | CtxClip
  | CtxClearRect real real real real
  | CtxDrawImage "draw_args option"
  | CtxRestore
  | CanvasToBlob
  | HttpPostMultipart string nat
  | CreateObjectURL nat
  | RevokeObjectURL nat
  | RenderAnalysis nat json
  | RenderPreview nat
  | HideAnalysis
  | HidePreview
  | Download string nat

section \<open>Cover-fit geometry (capturePhoto, step 1)\<close>

record cover_rect =
  drawWidth :: real
  drawHeight :: real
  offsetX :: real
  offsetY :: real

definition videoAspect :: "real \<Rightarrow> real \<Rightarrow> real" where
  "videoAspect vw vh = vw / vh"

definition containerAspect :: "real \<Rightarrow> real \<Rightarrow> real" where
  "containerAspect cw ch = cw / ch"

text \<open>Lines 224-234 of src/app.js, branch for branch.\<close>

definition cover_fit :: "real \<Rightarrow> real \<Rightarrow> real \<Rightarrow> real \<Rightarrow> cover_rect" where
  "cover_fit vw vh cw ch =
     (if videoAspect vw vh > containerAspect cw ch then
        (let dh = vh; dw = dh * containerAspect cw ch
         in \<lparr>drawWidth = dw, drawHeight = dh, offsetX = (vw - dw) / 2, offsetY = 0\<rparr>)
      else
        (let dw = vw; dh = dw / containerAspect cw ch
         in \<lparr>drawWidth = dw, drawHeight = dh, offsetX = 0, offsetY = (vh - dh) / 2\<rparr>))"

text \<open>The fixed size of the elliptical crop (constructor, lines 33-34).\<close>

definition ellipseWidth :: nat where
  "ellipseWidth = 307"

definition ellipseHeight :: nat where
  "ellipseHeight = 407"

text \<open>Lines 237-246 and 271-278: scale factors, the ellipse in video pixels and the
  arguments of \<open>drawImage\<close>. The factor \<open>videoRect.width / videoRect.width\<close> of the
  source is kept.\<close>

definition draw_image_args :: "real \<Rightarrow> real \<Rightarrow> real \<Rightarrow> real \<Rightarrow> draw_args" where
  "draw_image_args vw vh cw ch =
     (let r = cover_fit vw vh cw ch;
          scaleX = drawWidth r / cw;
          scaleY = drawHeight r / ch;
          ellipseCenterX = drawWidth r / 2;
          ellipseCenterY = drawHeight r / 2;
          ellipseRadiusX = (real ellipseWidth / 2) * (cw / cw) * scaleX;
          ellipseRadiusY = (real ellipseHeight / 2) * (ch / ch) * scaleY
      in \<lparr>sx = offsetX r + ellipseCenterX - ellipseRadiusX,
          sy = offsetY r + ellipseCenterY - ellipseRadiusY,
          sWidth = ellipseRadiusX * 2,
          sHeight = ellipseRadiusY * 2,
          dx = 0, dy = 0,
          dWidth = real ellipseWidth,
          dHeight = real ellipseHeight\<rparr>)"

text \<open>With a zero layout width or height the source divides by zero and hands
  non-finite numbers to \<open>drawImage\<close>, which then draws nothing and does not throw;
  the model records that call as \<open>CtxDrawImage None\<close>.\<close>

definition draw_image_call :: "video_el \<Rightarrow> draw_args option" where
  "draw_image_call v =
     (if rect_width v = 0 \<or> rect_height v = 0 then None
      else Some (draw_image_args (real (videoWidth v)) (real (videoHeight v))
                   (rect_width v) (rect_height v)))"

section \<open>capturePhoto\<close>

text \<open>Which of the optional elements the page has (\<open>document.getElementById\<close> gives
  \<open>null\<close> for the others).\<close>

record dom =
  has_loading :: bool
  has_previewContainer :: bool
  has_previewImage :: bool
  has_downloadBtn :: bool
  has_retryBtn :: bool

text \<open>The canvas size is the part of the page state that \<open>capturePhoto\<close> overwrites.\<close>

record canvas_el =
  canvas_width :: nat
  canvas_height :: nat

text \<open>\<open>showLoading\<close> (lines 362-373) does nothing when the page has no loading element.\<close>

definition showLoading :: "dom \<Rightarrow> bool \<Rightarrow> effect list" where
  "showLoading d show = (if \<not> has_loading d then [] else [ShowLoading show])"

text \<open>\<open>capturePhoto\<close> (lines 205-294) up to the point where the canvas is serialised.
  It runs as the click listener of the capture button, so that button exists.
  The result is the canvas afterwards and the effects in program order; the callback of
  \<open>CanvasToBlob\<close> is the only caller of \<open>analyzePhoto\<close>.
  \<open>!videoWidth\<close> is true exactly for 0 (the property is always a number). None of
  the calls inside the \<open>try\<close> throws on these arguments, so its \<open>catch\<close> (lines
  288-293) is not a branch here.\<close>

definition capturePhoto :: "dom \<Rightarrow> video_el \<Rightarrow> canvas_el \<Rightarrow> canvas_el \<times> effect list" where
  "capturePhoto d v c =
     (if videoWidth v = 0 \<or> videoHeight v = 0 then (c, [Alert CameraNotReady])
      else
        (c\<lparr>canvas_width := ellipseWidth, canvas_height := ellipseHeight\<rparr>,
         [SetCaptureDisabled True] @ showLoading d True @
         [CanvasSetWidth ellipseWidth, CanvasSetHeight ellipseHeight,
          CtxSave, CtxBeginPath,
          CtxEllipse (real ellipseWidth / 2) (real ellipseHeight / 2)
                     (real ellipseWidth / 2) (real ellipseHeight / 2) 0 0 (2 * pi),
          CtxClip,
          CtxClearRect 0 0 (real ellipseWidth) (real ellipseHeight),
          CtxDrawImage (draw_image_call v),
          CtxRestore,
          CanvasToBlob]))"

text \<open>The effects that change the canvas or its drawing context.\<close>

fun touches_canvas :: "effect \<Rightarrow> bool" where
  "touches_canvas (CanvasSetWidth _) = True"
| "touches_canvas (CanvasSetHeight _) = True"
| "touches_canvas CtxSave = True"
| "touches_canvas CtxBeginPath = True"
| "touches_canvas (CtxEllipse _ _ _ _ _ _ _) = True"
| "touches_canvas CtxClip = True"
| "touches_canvas (CtxClearRect _ _ _ _) = True"
| "touches_canvas (CtxDrawImage _) = True"
| "touches_canvas CtxRestore = True"
| "touches_canvas CanvasToBlob = True"
| "touches_canvas _ = False"

fun is_draw :: "effect \<Rightarrow> bool" where
  "is_draw (CtxDrawImage _) = True"
| "is_draw _ = False"

fun is_post :: "effect \<Rightarrow> bool" where
  "is_post (HttpPostMultipart _ _) = True"
| "is_post _ = False"

text \<open>The effects before the first \<open>drawImage\<close>.\<close>

definition before_draw :: "effect list \<Rightarrow> effect list" where
  "before_draw es = takeWhile (\<lambda>e. \<not> is_draw e) es"

section \<open>Result views and object URLs\<close>

text \<open>The part of the page that the result views change. \<open>next_url\<close> numbers the next
  object URL. The full result view: whether its container is shown, the URL bound
  in the handler of its close button (line 434), the URL bound in the handlers of its
  download and new-photo buttons (lines 435 and 437) and the analysis data bound in
  the handler of its save button (line 436); \<open>None\<close> where the current content has
  no such button or none was rendered yet. The minimal preview: whether its container
  is shown, the image source, and the URLs bound in the handlers of its download and
  retry buttons.\<close>

record page =
  next_url :: nat
  analysis_visible :: bool
  close_url :: "nat option"
  analysis_url :: "nat option"
  analysis_data :: "json option"
  preview_visible :: bool
  preview_src :: "nat option"
  download_btn_url :: "nat option"
  retry_btn_url :: "nat option"

definition init_page :: page where
  "init_page = \<lparr>next_url = 0, analysis_visible = False, close_url = None, analysis_url = None,
                 analysis_data = None, preview_visible = False, preview_src = None,
                 download_btn_url = None, retry_btn_url = None\<rparr>"

text \<open>\<open>showPreview\<close> (lines 527-559). Assigning \<open>onclick\<close> on a missing button throws
  inside the \<open>try\<close>; the \<open>catch\<close> then revokes the URL just created.\<close>

definition showPreview :: "dom \<Rightarrow> nat \<Rightarrow> page \<Rightarrow> page \<times> effect list" where
  "showPreview d blob p =
     (if \<not> has_previewContainer d \<or> \<not> has_previewImage d then (p, [ConsoleError])
      else
        (let u = next_url p;
             p1 = p\<lparr>next_url := Suc u, preview_src := Some u, preview_visible := True\<rparr>;
             shown = [CreateObjectURL u, RenderPreview u];
             caught = [ConsoleError, Alert PreviewFailed, RevokeObjectURL u]
         in if \<not> has_downloadBtn d then (p1, shown @ caught)
            else if \<not> has_retryBtn d then (p1\<lparr>download_btn_url := Some u\<rparr>, shown @ caught)
            else (p1\<lparr>download_btn_url := Some u, retry_btn_url := Some u\<rparr>, shown)))"

text \<open>\<open>showAnalysisResults\<close> (lines 380-445). The container is emptied and shown
  (lines 387-388) and the new content appended (line 431) before the handlers are
  bound. The values of the analysis are written into the markup as they come (lines
  409-419), so they can cut the markup short (a value \<open><!--\<close> comments out
  the rest, the action buttons with it); \<open>fault\<close> stands for that: the close button
  of the header is there and gets its handler (line 434), the lookup of the download
  button gives \<open>null\<close> and line 435 throws. The \<open>catch\<close> revokes the URL and falls
  back to the preview; the container stays shown with its close button bound.\<close>

definition showAnalysisResults :: "dom \<Rightarrow> nat \<Rightarrow> json \<Rightarrow> bool \<Rightarrow> page \<Rightarrow> page \<times> effect list" where
  "showAnalysisResults d blob analysisData fault p =
     (let u = next_url p;
          p1 = p\<lparr>next_url := Suc u, analysis_visible := True, close_url := Some u\<rparr>
      in if fault then
           (let (p2, es) = showPreview d blob (p1\<lparr>analysis_url := None, analysis_data := None\<rparr>)
            in (p2, [CreateObjectURL u, RenderAnalysis u analysisData, ConsoleError,
                     RevokeObjectURL u] @ es))
         else
           (p1\<lparr>analysis_url := Some u, analysis_data := Some analysisData\<rparr>,
            [CreateObjectURL u, RenderAnalysis u analysisData]))"

text \<open>\<open>_hideAnalysisContainer\<close> (lines 465-468); an object URL is a non-empty string, so
  \<open>if (url)\<close> holds.\<close>

definition hideAnalysisContainer :: "nat \<Rightarrow> page \<Rightarrow> page \<times> effect list" where
  "hideAnalysisContainer u p = (p\<lparr>analysis_visible := False\<rparr>, [HideAnalysis, RevokeObjectURL u])"

text \<open>The handler of the preview's retry button (lines 549-552).\<close>

definition retryPreview :: "nat \<Rightarrow> page \<Rightarrow> page \<times> effect list" where
  "retryPreview u p = (p\<lparr>preview_visible := False\<rparr>, [HidePreview, RevokeObjectURL u])"

section \<open>Download names\<close>

text \<open>A non-negative integer in a template literal: its decimal digits.\<close>

definition digit_char :: "nat \<Rightarrow> char" where
  "digit_char n = ''0123456789'' ! n"

function show_nat :: "nat \<Rightarrow> string" where
  "show_nat n = (if n < 10 then [digit_char n] else show_nat (n div 10) @ [digit_char (n mod 10)])"
  by pat_completeness auto
termination
  by (relation "measure id") auto

declare show_nat.simps [simp del]

text \<open>\<open>_downloadImage\<close> (lines 474-479), the handler of the preview's download button
  (lines 542-547) and the download of \<open>saveAnalysisData\<close> (lines 510-518); \<open>now\<close> is
  \<open>Date.now()\<close>.\<close>

definition downloadImage :: "nat \<Rightarrow> nat \<Rightarrow> effect list" where
  "downloadImage now u = [Download (''analise-facial-'' @ show_nat now @ ''.png'') u]"

definition downloadPreview :: "nat \<Rightarrow> nat \<Rightarrow> effect list" where
  "downloadPreview now u = [Download (''face-capture-'' @ show_nat now @ ''.png'') u]"

text \<open>\<open>formatDecimal\<close> is \<open>(value || 0).toFixed(2)\<close>: it throws a \<open>TypeError\<close> when the
  value is truthy and not a number.\<close>

fun formatDecimal_throws :: "json option \<Rightarrow> bool" where
  "formatDecimal_throws None = False"
| "formatDecimal_throws (Some (JNum _)) = False"
| "formatDecimal_throws (Some v) = truthy v"

definition report_throws :: "json \<Rightarrow> bool" where
  "report_throws data =
     (let detalhes = opt_prop (Some data) ''detalhes''
      in formatDecimal_throws (opt_prop (opt_prop detalhes ''manchas'') ''porcentagem'')
       \<or> formatDecimal_throws (opt_prop (opt_prop detalhes ''textura'') ''contraste'')
       \<or> formatDecimal_throws (opt_prop (opt_prop detalhes ''textura'') ''homogeneidade'')
       \<or> formatDecimal_throws (opt_prop (opt_prop detalhes ''rugas'') ''porcentagem''))"

text \<open>\<open>saveAnalysisData\<close> (lines 485-521): the report gets an object URL of its own,
  revoked right after the click. An exception of \<open>formatDecimal\<close> leaves the handler
  before anything is created.\<close>

definition saveAnalysisData :: "nat \<Rightarrow> json \<Rightarrow> page \<Rightarrow> page \<times> effect list" where
  "saveAnalysisData now data p =
     (if report_throws data then (p, [])
      else
        (let u = next_url p
         in (p\<lparr>next_url := Suc u\<rparr>,
             [CreateObjectURL u,
              Download (''analise-facial-'' @ show_nat now @ ''.txt'') u,
              RevokeObjectURL u,
              Alert ReportSaved])))"

section \<open>analyzePhoto\<close>

text \<open>The \<open>erro || JSON.stringify(json)\<close> of a non-success response (lines 324-328);
  an exception inside the inner \<open>try\<close> keeps the raw text.\<close>

definition http_error_details :: "response \<Rightarrow> error_details" where
  "http_error_details r =
     (case body_json r of
        None \<Rightarrow> RawText (body_text r)
      | Some j \<Rightarrow>
          (case get_prop j ''erro'' of
             Threw \<Rightarrow> RawText (body_text r)
           | Undefined \<Rightarrow> Stringified j
           | Value v \<Rightarrow> if truthy v then ErroValue v else Stringified j))"

text \<open>The body of the \<open>try\<close> from the response on (lines 322-337): the error thrown, or
  the result handed to \<open>showAnalysisResults\<close>.\<close>

definition upload_result :: "fetch_result \<Rightarrow> err_message + json" where
  "upload_result net =
     (case net of
        NetworkError m \<Rightarrow> Inl (NetworkFailure m)
      | Response r \<Rightarrow>
          if \<not> response_ok r then Inl (HttpFailure (status r) (http_error_details r))
          else
            (case body_json r of
               None \<Rightarrow> Inl InvalidJson
             | Some result \<Rightarrow>
                 (case get_prop result ''erro'' of
                    Threw \<Rightarrow> Inl NullResult
                  | Undefined \<Rightarrow> Inr result
                  | Value v \<Rightarrow> if truthy v then Inl (ErroField v) else Inr result)))"

text \<open>\<open>analyzePhoto\<close> (lines 300-351). \<open>apiUrl\<close> is \<open>None\<close> for \<open>null\<close>; \<open>net\<close> is what the
  one \<open>fetch\<close> settles with; \<open>fault\<close> is passed to \<open>showAnalysisResults\<close>.\<close>

definition analyzePhoto ::
    "dom \<Rightarrow> string option \<Rightarrow> nat \<Rightarrow> fetch_result \<Rightarrow> bool \<Rightarrow> page \<Rightarrow> page \<times> effect list" where
  "analyzePhoto d apiUrl blob net fault p =
     (case apiUrl of
        None \<Rightarrow> (p, showLoading d False @ [SetCaptureDisabled False, Alert ApiUnavailable])
      | Some base \<Rightarrow>
          (let started = showLoading d True @ [HttpPostMultipart (base @ ''/upload'') blob];
               cleanup = showLoading d False @ [SetCaptureDisabled False]
           in case upload_result net of
                Inl err \<Rightarrow>
                  (let (p', es) = showPreview d blob p
                   in (p', started @ [ConsoleError, Alert (AnalysisFailed err)] @ es @ cleanup))
              | Inr result \<Rightarrow>
                  (let (p', es) = showAnalysisResults d blob result fault p
                   in (p', started @ es @ cleanup))))"

text \<open>Whether an upload attempt ended in the \<open>catch\<close> of \<open>analyzePhoto\<close>.\<close>

definition upload_failed :: "fetch_result \<Rightarrow> bool" where
  "upload_failed net = (case upload_result net of Inl _ \<Rightarrow> True | Inr _ \<Rightarrow> False)"

text \<open>The specification's criterion of failure: a non-success status, or a success response
  whose body has an \<open>erro\<close> member.\<close>

definition has_erro_field :: "json \<Rightarrow> bool" where
  "has_erro_field j = (case get_prop j ''erro'' of Value _ \<Rightarrow> True | _ \<Rightarrow> False)"

definition failure_by_status_or_erro :: "fetch_result \<Rightarrow> bool" where
  "failure_by_status_or_erro net =
     (case net of
        NetworkError _ \<Rightarrow> False
      | Response r \<Rightarrow>
          \<not> response_ok r \<or>
          (case body_json r of None \<Rightarrow> False | Some j \<Rightarrow> has_erro_field j))"

fun is_render_analysis :: "effect \<Rightarrow> bool" where
  "is_render_analysis (RenderAnalysis _ _) = True"
| "is_render_analysis _ = False"

fun is_render_preview :: "effect \<Rightarrow> bool" where
  "is_render_preview (RenderPreview _) = True"
| "is_render_preview _ = False"

section \<open>A capture from click to result\<close>

fun is_to_blob :: "effect \<Rightarrow> bool" where
  "is_to_blob CanvasToBlob = True"
| "is_to_blob _ = False"

text \<open>A click on the capture button followed by what it sets off: \<open>capturePhoto\<close>, and
  \<open>analyzePhoto\<close> on the blob when \<open>toBlob\<close> was reached (its callback, line 284).\<close>

definition capture_click ::
    "dom \<Rightarrow> string option \<Rightarrow> video_el \<Rightarrow> nat \<Rightarrow> fetch_result \<Rightarrow> bool \<Rightarrow>
     canvas_el \<times> page \<Rightarrow> (canvas_el \<times> page) \<times> effect list" where
  "capture_click d apiUrl v blob net fault cp =
     (let (c', es) = capturePhoto d v (fst cp)
      in if list_ex is_to_blob es then
           (let (p', es') = analyzePhoto d apiUrl blob net fault (snd cp)
            in ((c', p'), es @ es'))
         else ((c', snd cp), es))"

section \<open>The result views as a machine\<close>

text \<open>What happens on the page after the camera is running: a capture whose blob
  reached \<open>analyzePhoto\<close> (with the blob, what the upload settled with and the fault
  flag of \<open>showAnalysisResults\<close>), and the clicks on the controls of the two result
  views. The clicks carry \<open>Date.now()\<close> where the handler reads it.\<close>

datatype ui_event =
    CaptureDone nat fetch_result bool
  | ClickCloseAnalysis
  | ClickDownloadResults nat
  | ClickSaveResults nat
  | ClickRetryCapture
  | ClickDownloadBtn nat
  | ClickRetryBtn

text \<open>A click runs the handler that the last render bound to the control, if there is
  one: lines 434-437 for the full result view, lines 542-552 for the preview. The
  handlers do not test whether their view is shown.\<close>

definition ui_step :: "dom \<Rightarrow> string option \<Rightarrow> page \<Rightarrow> ui_event \<Rightarrow> page \<times> effect list" where
  "ui_step d apiUrl p ev =
     (case ev of
        CaptureDone blob net fault \<Rightarrow> analyzePhoto d apiUrl blob net fault p
      | ClickCloseAnalysis \<Rightarrow>
          (case close_url p of Some u \<Rightarrow> hideAnalysisContainer u p | None \<Rightarrow> (p, []))
      | ClickDownloadResults now \<Rightarrow>
          (case analysis_url p of Some u \<Rightarrow> (p, downloadImage now u) | None \<Rightarrow> (p, []))
      | ClickSaveResults now \<Rightarrow>
          (case analysis_data p of Some data \<Rightarrow> saveAnalysisData now data p | None \<Rightarrow> (p, []))
      | ClickRetryCapture \<Rightarrow>
          (case analysis_url p of Some u \<Rightarrow> hideAnalysisContainer u p | None \<Rightarrow> (p, []))
      | ClickDownloadBtn now \<Rightarrow>
          (case download_btn_url p of Some u \<Rightarrow> (p, downloadPreview now u) | None \<Rightarrow> (p, []))
      | ClickRetryBtn \<Rightarrow>
          (case retry_btn_url p of Some u \<Rightarrow> retryPreview u p | None \<Rightarrow> (p, [])))"

text \<open>A run of the page: the state and everything done so far.\<close>

fun ui_run :: "dom \<Rightarrow> string option \<Rightarrow> page \<times> effect list \<Rightarrow> ui_event list \<Rightarrow> page \<times> effect list" where
  "ui_run d apiUrl s [] = s"
| "ui_run d apiUrl s (ev # evs) =
     (let (p', es) = ui_step d apiUrl (fst s) ev in ui_run d apiUrl (p', snd s @ es) evs)"

fun revokes :: "nat \<Rightarrow> effect \<Rightarrow> bool" where
  "revokes u (RevokeObjectURL w) = (w = u)"
| "revokes u _ = False"

fun creates :: "nat \<Rightarrow> effect \<Rightarrow> bool" where
  "creates u (CreateObjectURL w) = (w = u)"
| "creates u _ = False"

definition revoke_count :: "effect list \<Rightarrow> nat \<Rightarrow> nat" where
  "revoke_count tr u = length (filter (revokes u) tr)"

definition create_count :: "effect list \<Rightarrow> nat \<Rightarrow> nat" where
  "create_count tr u = length (filter (creates u) tr)"

fun download_names :: "effect list \<Rightarrow> string list" where
  "download_names [] = []"
| "download_names (Download name u # es) = name # download_names es"
| "download_names (e # es) = download_names es"

text \<open>The number a string of decimal digits denotes.\<close>

definition digit_value :: "char \<Rightarrow> nat" where
  "digit_value c = of_char c - 48"

definition decimal_value :: "string \<Rightarrow> nat" where
  "decimal_value cs = foldl (\<lambda>a c. 10 * a + digit_value c) 0 cs"

section \<open>Construction of the controller\<close>

text \<open>What the constructor and \<open>init\<close> look up: the elements of the page and whether
  the browser has \<open>navigator.serviceWorker\<close>.\<close>

record page_elements =
  has_video :: bool
  has_canvas :: bool
  has_acceptConsent :: bool
  has_switchCamera :: bool
  has_captureBtn :: bool
  sw_supported :: bool

datatype facing = User | Environment

text \<open>The fields the constructor sets after the element check (lines 25-34).\<close>

record controller =
  ctrl_currentStream :: "nat option"
  ctrl_facingMode :: facing
  ctrl_apiUrl :: "string option"
  ctrl_ellipseWidth :: nat
  ctrl_ellipseHeight :: nat

datatype init_effect =
    LogMissingElements
  | GetContext2d
  | AddClickListener string
  | RegisterServiceWorker string
  | FetchHealth

text \<open>\<open>initEventListeners\<close> (lines 54-58): \<open>?.\<close> skips an element the page does not
  have.\<close>

definition initEventListeners :: "page_elements \<Rightarrow> init_effect list" where
  "initEventListeners els =
     (if has_acceptConsent els then [AddClickListener ''acceptConsent''] else []) @
     (if has_switchCamera els then [AddClickListener ''switchCamera''] else []) @
     (if has_captureBtn els then [AddClickListener ''captureBtn''] else [])"

text \<open>\<open>registerServiceWorker\<close> (lines 60-69) and the request of \<open>detectApiUrl\<close>
  (lines 74-85).\<close>

definition registerServiceWorker :: "page_elements \<Rightarrow> init_effect list" where
  "registerServiceWorker els = (if sw_supported els then [RegisterServiceWorker ''sw.js''] else [])"

definition detectApiUrl :: "init_effect list" where
  "detectApiUrl = [FetchHealth]"

definition init :: "page_elements \<Rightarrow> init_effect list" where
  "init els = initEventListeners els @ registerServiceWorker els @ detectApiUrl"

text \<open>The constructor (lines 8-38): \<open>None\<close> is the object left without state by the
  early \<open>return\<close>.\<close>

definition constructor :: "page_elements \<Rightarrow> controller option \<times> init_effect list" where
  "constructor els =
     (if \<not> has_video els \<or> \<not> has_canvas els then (None, [LogMissingElements])
      else
        (Some \<lparr>ctrl_currentStream = None, ctrl_facingMode = User, ctrl_apiUrl = None,
               ctrl_ellipseWidth = 307, ctrl_ellipseHeight = 407\<rparr>,
         [GetContext2d] @ init els))"

fun is_listener :: "init_effect \<Rightarrow> bool" where
  "is_listener (AddClickListener _) = True"
| "is_listener _ = False"

fun is_registration :: "init_effect \<Rightarrow> bool" where
  "is_registration (RegisterServiceWorker _) = True"
| "is_registration _ = False"

fun is_health_check :: "init_effect \<Rightarrow> bool" where
  "is_health_check FetchHealth = True"
| "is_health_check _ = False"

section \<open>Camera\<close>

text \<open>The camera side of the controller between events. \<open>streams\<close> holds every media
  stream handed out so far, numbered in order, as the list of its tracks (\<open>True\<close> for
  a live track, \<open>False\<close> for a stopped one). \<open>pending\<close> counts the \<open>getUserMedia\<close>
  requests that have not settled: \<open>initCamera\<close> is suspended at its \<open>await\<close> for
  each of them.\<close>

record camera =
  cam_stream :: "nat option"
  cam_facing :: facing
  streams :: "bool list list"
  pending :: nat

definition init_camera_state :: camera where
  "init_camera_state = \<lparr>cam_stream = None, cam_facing = User, streams = [], pending = 0\<rparr>"

datatype cam_effect =
    StopTrack nat nat
  | ClearStream
  | RequestStream facing
  | AttachStream nat
  | AlertCameraError

text \<open>\<open>initCamera\<close> up to its \<open>await\<close> (lines 157-172): stop every track of the stream
  held, clear the reference, then ask for a new stream.\<close>

definition initCamera :: "camera \<Rightarrow> camera \<times> cam_effect list" where
  "initCamera c =
     (let (c1, stops) =
            (case cam_stream c of
               None \<Rightarrow> (c, [])
             | Some s \<Rightarrow>
                 (c\<lparr>streams := (streams c)[s := map (\<lambda>_. False) (streams c ! s)],
                    cam_stream := None\<rparr>,
                  map (StopTrack s) [0 ..< length (streams c ! s)] @ [ClearStream]))
      in (c1\<lparr>pending := Suc (pending c1)\<rparr>, stops @ [RequestStream (cam_facing c1)]))"

text \<open>\<open>switchCamera\<close> (lines 193-196).\<close>

definition switchCamera :: "camera \<Rightarrow> camera \<times> cam_effect list" where
  "switchCamera c =
     initCamera (c\<lparr>cam_facing := (if cam_facing c = User then Environment else User)\<rparr>)"

text \<open>The rest of \<open>initCamera\<close> once a request settles (lines 172-180): with a stream of
  \<open>n\<close> live tracks it becomes the current stream; a rejection alerts.\<close>

definition granted :: "nat \<Rightarrow> camera \<Rightarrow> camera \<times> cam_effect list" where
  "granted n c =
     (if pending c = 0 then (c, [])
      else (c\<lparr>streams := streams c @ [replicate n True],
              cam_stream := Some (length (streams c)),
              pending := pending c - 1\<rparr>,
            [AttachStream (length (streams c))]))"

definition denied :: "camera \<Rightarrow> camera \<times> cam_effect list" where
  "denied c =
     (if pending c = 0 then (c, [])
      else (c\<lparr>pending := pending c - 1\<rparr>, [AlertCameraError]))"

text \<open>The events of the camera: the consent button (\<open>handleConsentAccept\<close> calls
  \<open>initCamera\<close>), the switch button, and a pending request being granted a stream
  with some number of tracks or being refused.\<close>

datatype cam_event = ConsentAccept | SwitchClick | Granted nat | Denied

definition cam_step :: "camera \<Rightarrow> cam_event \<Rightarrow> camera \<times> cam_effect list" where
  "cam_step c ev =
     (case ev of
        ConsentAccept \<Rightarrow> initCamera c
      | SwitchClick \<Rightarrow> switchCamera c
      | Granted n \<Rightarrow> granted n c
      | Denied \<Rightarrow> denied c)"

fun cam_run :: "camera \<Rightarrow> cam_event list \<Rightarrow> camera" where
  "cam_run c [] = c"
| "cam_run c (ev # evs) = cam_run (fst (cam_step c ev)) evs"

text \<open>A stream is live while one of its tracks is.\<close>

definition live_streams :: "camera \<Rightarrow> nat" where
  "live_streams c = length (filter (list_ex (\<lambda>t. t)) (streams c))"

section \<open>Offline cache worker (the service worker script)\<close>

definition CACHE_NAME :: string where
  "CACHE_NAME = ''face-capture-v2''"

definition STATIC_CACHE :: "string list" where
  "STATIC_CACHE = [''/'', ''/index.html'', ''/style.css'', ''/app.js'', ''/manifest.json'',
                   ''/icons/icon-512x512.png'']"

definition OFFLINE_URL :: string where
  "OFFLINE_URL = ''/index.html''"

record net_response =
  resp_status :: nat
  resp_body :: string

text \<open>A cache maps request URLs to responses; the cache storage maps names to caches,
  in the order they were created (the order of \<open>caches.keys()\<close>). The Cache API
  compares request URLs without their fragment, and the fragment is not sent over
  the network: caches and network are keyed by the URL up to its first \<open>#\<close>. The
  network is the table of what a fetch of each URL returns; a URL it lacks is a
  failed fetch. A path is resolved against the worker's origin by appending it.\<close>

definition strip_fragment :: "string \<Rightarrow> string" where
  "strip_fragment url = takeWhile (\<lambda>c. c \<noteq> CHR ''#'') url"

type_synonym cache = "(string \<times> net_response) list"

type_synonym cache_storage = "(string \<times> cache) list"

type_synonym network = "(string \<times> net_response) list"

definition caches_keys :: "cache_storage \<Rightarrow> string list" where
  "caches_keys cs = map fst cs"

definition caches_open :: "string \<Rightarrow> cache_storage \<Rightarrow> cache_storage" where
  "caches_open name cs = (if name \<in> set (caches_keys cs) then cs else cs @ [(name, [])])"

definition caches_delete :: "string \<Rightarrow> cache_storage \<Rightarrow> cache_storage" where
  "caches_delete name cs = filter (\<lambda>nc. fst nc \<noteq> name) cs"

text \<open>\<open>caches.match\<close> looks through the caches in creation order; the key is a URL
  without fragment.\<close>

fun caches_match :: "cache_storage \<Rightarrow> string \<Rightarrow> net_response option" where
  "caches_match [] url = None"
| "caches_match (nc # cs) url =
     (case map_of (snd nc) url of Some r \<Rightarrow> Some r | None \<Rightarrow> caches_match cs url)"

definition cache_put :: "string \<Rightarrow> net_response \<Rightarrow> cache \<Rightarrow> cache" where
  "cache_put url r c = (url, r) # filter (\<lambda>kv. fst kv \<noteq> url) c"

text \<open>\<open>caches.open(name).then(cache => cache.put(url, r))\<close>.\<close>

definition caches_put :: "string \<Rightarrow> string \<Rightarrow> net_response \<Rightarrow> cache_storage \<Rightarrow> cache_storage" where
  "caches_put name url r cs =
     map (\<lambda>nc. if fst nc = name then (fst nc, cache_put url r (snd nc)) else nc)
       (caches_open name cs)"

text \<open>The entry of one named cache.\<close>

definition store_lookup :: "cache_storage \<Rightarrow> string \<Rightarrow> string \<Rightarrow> net_response option" where
  "store_lookup cs name url = (case map_of cs name of None \<Rightarrow> None | Some c \<Rightarrow> map_of c url)"

text \<open>Install (lines 16-27): open the current cache, then \<open>addAll\<close>, which stores the
  responses only when every asset was fetched with a success status. The flag tells
  whether the installation succeeded.\<close>

definition asset_ok :: "network \<Rightarrow> string \<Rightarrow> bool" where
  "asset_ok net url =
     (case map_of net url of None \<Rightarrow> False
      | Some r \<Rightarrow> 200 \<le> resp_status r \<and> resp_status r \<le> 299)"

definition install :: "string \<Rightarrow> network \<Rightarrow> cache_storage \<Rightarrow> cache_storage \<times> bool" where
  "install origin net cs =
     (let cs1 = caches_open CACHE_NAME cs;
          urls = map (\<lambda>path. origin @ path) STATIC_CACHE
      in if list_all (asset_ok net) urls
         then (fold (\<lambda>url acc. case map_of net url of
                                   None \<Rightarrow> acc
                                 | Some r \<Rightarrow> caches_put CACHE_NAME url r acc) urls cs1, True)
         else (cs1, False))"

text \<open>Activate (lines 30-44): delete every cache whose name is not the current one.\<close>

definition activate :: "cache_storage \<Rightarrow> cache_storage" where
  "activate cs = fold caches_delete (filter (\<lambda>cacheName. cacheName \<noteq> CACHE_NAME) (caches_keys cs)) cs"

text \<open>A fetch event: the request's method and URL, and the origin of that URL.\<close>

record request =
  req_method :: string
  req_url :: string
  req_origin :: string

text \<open>\<open>String.prototype.includes\<close>.\<close>

definition starts_with :: "string \<Rightarrow> string \<Rightarrow> bool" where
  "starts_with s p = (take (length p) s = p)"

fun str_includes :: "string \<Rightarrow> string \<Rightarrow> bool" where
  "str_includes [] p = (p = [])"
| "str_includes (c # cs) p = (starts_with (c # cs) p \<or> str_includes cs p)"

text \<open>What the handler does with the event: return without \<open>respondWith\<close>, or respond
  with a response (\<open>None\<close> when the promise resolves to \<open>undefined\<close>).\<close>

datatype fetch_outcome = PassThrough | RespondWith "net_response option"

text \<open>What the handler does, in the order it happens. \<open>ReturnResponse\<close> is the \<open>return\<close>
  that settles the promise given to \<open>respondWith\<close> (lines 64, 78, 83). \<open>CacheOpen\<close>
  is the call of \<open>caches.open\<close> at line 73; \<open>CacheWrite\<close> is the \<open>cache.put\<close> of
  line 75, inside the callback of that \<open>open\<close>: the handler does not wait for it, so
  it runs after the \<open>return networkResponse\<close> of line 78.\<close>

datatype sw_effect =
    CacheLookup string
  | NetworkFetch string
  | CacheOpen string
  | ReturnResponse
  | CacheWrite string string

text \<open>The fetch handler (lines 47-87). The upload test reads the whole URL of the
  request; the cache and the network see it without its fragment. The storage
  returned is the one after the write has completed.\<close>

definition sw_fetch ::
    "string \<Rightarrow> network \<Rightarrow> cache_storage \<Rightarrow> request \<Rightarrow> fetch_outcome \<times> cache_storage \<times> sw_effect list" where
  "sw_fetch origin net cs rq =
     (if req_method rq \<noteq> ''GET'' \<or> str_includes (req_url rq) ''/upload'' \<or> req_origin rq \<noteq> origin
      then (PassThrough, cs, [])
      else
        (let key = strip_fragment (req_url rq)
         in case caches_match cs key of
              Some cachedResponse \<Rightarrow>
                (RespondWith (Some cachedResponse), cs, [CacheLookup key, ReturnResponse])
            | None \<Rightarrow>
                (case map_of net key of
                   Some networkResponse \<Rightarrow>
                     if resp_status networkResponse = 200
                     then (RespondWith (Some networkResponse),
                           caches_put CACHE_NAME key networkResponse cs,
                           [CacheLookup key, NetworkFetch key, CacheOpen CACHE_NAME,
                            ReturnResponse, CacheWrite CACHE_NAME key])
                     else (RespondWith (Some networkResponse), cs,
                           [CacheLookup key, NetworkFetch key, ReturnResponse])
                 | None \<Rightarrow>
                     (RespondWith (caches_match cs (origin @ OFFLINE_URL)), cs,
                      [CacheLookup key, NetworkFetch key,
                       CacheLookup (origin @ OFFLINE_URL), ReturnResponse]))))"

text \<open>A series of fetch events, each with the network as it is then.\<close>

fun sw_run :: "string \<Rightarrow> cache_storage \<Rightarrow> (network \<times> request) list \<Rightarrow> cache_storage" where
  "sw_run origin cs [] = cs"
| "sw_run origin cs (nr # rest) =
     sw_run origin (fst (snd (sw_fetch origin (fst nr) cs (snd nr)))) rest"

text \<open>The specification's test for caching: a success status.\<close>

definition status_success :: "net_response \<Rightarrow> bool" where
  "status_success r = (200 \<le> resp_status r \<and> resp_status r \<le> 299)"

fun is_network_fetch :: "sw_effect \<Rightarrow> bool" where
  "is_network_fetch (NetworkFetch _) = True"
| "is_network_fetch _ = False"

fun is_cache_write :: "sw_effect \<Rightarrow> bool" where
  "is_cache_write (CacheWrite _ _) = True"
| "is_cache_write _ = False"

fun is_return :: "sw_effect \<Rightarrow> bool" where
  "is_return ReturnResponse = True"
| "is_return _ = False"

text \<open>The specification's order: the copy is in the cache before the response is
  returned.\<close>

definition stored_before_return :: "sw_effect list \<Rightarrow> bool" where
  "stored_before_return es = list_ex is_cache_write (takeWhile (\<lambda>e. \<not> is_return e) es)"

text \<open>Whether the handler takes the request: GET, same origin, no \<open>/upload\<close> in the
  URL (the negation of the test of lines 52-55).\<close>

definition intercepted :: "string \<Rightarrow> request \<Rightarrow> bool" where
  "intercepted origin rq \<longleftrightarrow>
     req_method rq = ''GET'' \<and> req_origin rq = origin \<and> \<not> str_includes (req_url rq) ''/upload''"

section \<open>Theorems\<close>



text \<open>For positive sizes the rectangle lies inside the video frame.\<close>

lemma cover_fit_inside_video:
  assumes "0 < vw" and "0 < vh" and "0 < cw" and "0 < ch"
  shows "0 \<le> offsetX (cover_fit vw vh cw ch)"
    and "0 \<le> offsetY (cover_fit vw vh cw ch)"
    and "offsetX (cover_fit vw vh cw ch) + drawWidth (cover_fit vw vh cw ch) \<le> vw"
    and "offsetY (cover_fit vw vh cw ch) + drawHeight (cover_fit vw vh cw ch) \<le> vh"
proof -
  have a: "vh * (cw / ch) \<le> vw" if "cw / ch < vw / vh"
  proof -
    from that assms(2) have "vh * (cw / ch) < vh * (vw / vh)"
      by (simp only: mult_less_cancel_left_pos)
    with assms(2) show ?thesis by simp
  qed
  have b: "vw / (cw / ch) \<le> vh" if "\<not> cw / ch < vw / vh"
  proof -
    from that have "vw / vh \<le> cw / ch" by simp
    with assms have "vw * ch \<le> cw * vh"
      by (simp add: field_simps)
    with assms show ?thesis
      by (simp add: field_simps)
  qed
  show "0 \<le> offsetX (cover_fit vw vh cw ch)"
    "0 \<le> offsetY (cover_fit vw vh cw ch)"
    "offsetX (cover_fit vw vh cw ch) + drawWidth (cover_fit vw vh cw ch) \<le> vw"
    "offsetY (cover_fit vw vh cw ch) + drawHeight (cover_fit vw vh cw ch) \<le> vh"
    using a b
    by (auto simp add: cover_fit_def videoAspect_def containerAspect_def Let_def field_simps)
qed

text \<open>C2: whatever the video's resolution and the container's size, a capture that
  passes the readiness check sets the canvas to 307 by 407 pixels and clips to the
  ellipse inscribed in it (centre (307/2, 407/2), radii 307/2 and 407/2) before it
  draws: nothing touches the canvas before the size is set, and the one \<open>drawImage\<close>
  comes after the clip.\<close>

theorem capture_canvas_fixed_size:
  assumes "videoWidth v \<noteq> 0" and "videoHeight v \<noteq> 0"
  shows "canvas_width (fst (capturePhoto d v c)) = 307
       \<and> canvas_height (fst (capturePhoto d v c)) = 407
       \<and> (\<exists>pre. before_draw (snd (capturePhoto d v c)) =
              pre @ [CanvasSetWidth 307, CanvasSetHeight 407, CtxSave, CtxBeginPath,
                     CtxEllipse (307 / 2) (407 / 2) (307 / 2) (407 / 2) 0 0 (2 * pi),
                     CtxClip, CtxClearRect 0 0 307 407]
            \<and> \<not> list_ex touches_canvas pre)
       \<and> length (filter is_draw (snd (capturePhoto d v c))) = 1"
proof -
  let ?pre = "[SetCaptureDisabled True] @ showLoading d True"
  have "\<not> list_ex touches_canvas ?pre"
    by (simp add: showLoading_def)
  moreover have "before_draw (snd (capturePhoto d v c)) =
      ?pre @ [CanvasSetWidth 307, CanvasSetHeight 407, CtxSave, CtxBeginPath,
              CtxEllipse (307 / 2) (407 / 2) (307 / 2) (407 / 2) 0 0 (2 * pi),
              CtxClip, CtxClearRect 0 0 307 407]"
    using assms
    by (simp add: capturePhoto_def before_draw_def showLoading_def
        ellipseWidth_def ellipseHeight_def)
  moreover have "length (filter is_draw (snd (capturePhoto d v c))) = 1"
    using assms by (simp add: capturePhoto_def showLoading_def)
  moreover have "canvas_width (fst (capturePhoto d v c)) = 307"
      "canvas_height (fst (capturePhoto d v c)) = 407"
    using assms by (simp_all add: capturePhoto_def ellipseWidth_def ellipseHeight_def)
  ultimately show ?thesis
    by blast
qed

theorem capture_canvas_fixed_size_witness:
  "canvas_width (fst (capturePhoto \<lparr>has_loading = True, has_previewContainer = True,
       has_previewImage = True, has_downloadBtn = True, has_retryBtn = True\<rparr>
     \<lparr>videoWidth = 1280, videoHeight = 720, rect_width = 360, rect_height = 640\<rparr>
     \<lparr>canvas_width = 800, canvas_height = 1000\<rparr>)) = 307
   \<and> canvas_height (fst (capturePhoto \<lparr>has_loading = True, has_previewContainer = True,
       has_previewImage = True, has_downloadBtn = True, has_retryBtn = True\<rparr>
     \<lparr>videoWidth = 1280, videoHeight = 720, rect_width = 360, rect_height = 640\<rparr>
     \<lparr>canvas_width = 800, canvas_height = 1000\<rparr>)) = 407"
  using capture_canvas_fixed_size
    [of "\<lparr>videoWidth = 1280, videoHeight = 720, rect_width = 360, rect_height = 640\<rparr>"
        "\<lparr>has_loading = True, has_previewContainer = True,
          has_previewImage = True, has_downloadBtn = True, has_retryBtn = True\<rparr>"
        "\<lparr>canvas_width = 800, canvas_height = 1000\<rparr>"]
  by simp

text \<open>C3: a capture invoked while the video reports a zero intrinsic width or height
  stops at once: the only effect is the camera-not-ready notice, the canvas and the
  page are unchanged (no geometry, no drawing, no \<open>toBlob\<close>), and no upload request
  is made.\<close>

theorem capture_not_ready_aborts:
  assumes "videoWidth v = 0 \<or> videoHeight v = 0"
  shows "capturePhoto d v c = (c, [Alert CameraNotReady])
       \<and> capture_click d apiUrl v blob net fault (c, p) = ((c, p), [Alert CameraNotReady])
       \<and> \<not> list_ex touches_canvas (snd (capture_click d apiUrl v blob net fault (c, p)))
       \<and> \<not> list_ex is_post (snd (capture_click d apiUrl v blob net fault (c, p)))"
proof -
  have a: "capturePhoto d v c = (c, [Alert CameraNotReady])"
    using assms by (auto simp add: capturePhoto_def)
  then have b: "capture_click d apiUrl v blob net fault (c, p) = ((c, p), [Alert CameraNotReady])"
    by (simp add: capture_click_def)
  from a b show ?thesis
    by simp
qed

theorem capture_not_ready_aborts_witness:
  "capture_click \<lparr>has_loading = True, has_previewContainer = True,
       has_previewImage = True, has_downloadBtn = True, has_retryBtn = True\<rparr>
     (Some ''https://example.org'')
     \<lparr>videoWidth = 0, videoHeight = 0, rect_width = 360, rect_height = 640\<rparr>
     0 (NetworkError ''offline'') False
     (\<lparr>canvas_width = 800, canvas_height = 1000\<rparr>, init_page)
   = ((\<lparr>canvas_width = 800, canvas_height = 1000\<rparr>, init_page), [Alert CameraNotReady])"
  using capture_not_ready_aborts
    [of "\<lparr>videoWidth = 0, videoHeight = 0, rect_width = 360, rect_height = 640\<rparr>"]
  by simp

subsection \<open>Upload\<close>

lemma get_prop_threw: "get_prop j k = Threw \<longleftrightarrow> j = JNull"
  by (cases j) (auto split: option.splits)

lemma showPreview_no_analysis: "\<not> list_ex is_render_analysis (snd (showPreview d blob p))"
  by (simp add: showPreview_def Let_def)

lemma showPreview_no_post: "filter is_post (snd (showPreview d blob p)) = []"
  by (simp add: showPreview_def Let_def)

lemma showPreview_renders:
  "has_previewContainer d \<Longrightarrow> has_previewImage d \<Longrightarrow>
   list_ex is_render_preview (snd (showPreview d blob p))"
  by (simp add: showPreview_def Let_def)

lemma showAnalysisResults_no_post:
  "filter is_post (snd (showAnalysisResults d blob j fault p)) = []"
  by (simp add: showAnalysisResults_def Let_def split_beta showPreview_no_post)

lemma showLoading_no_post: "filter is_post (showLoading d b) = []"
  by (simp add: showLoading_def)

lemma analyzePhoto_no_endpoint:
  "analyzePhoto d None blob net fault p =
     (p, showLoading d False @ [SetCaptureDisabled False, Alert ApiUnavailable])"
  by (simp add: analyzePhoto_def)

lemma analyzePhoto_one_post:
  "filter is_post (snd (analyzePhoto d (Some base) blob net fault p)) =
     [HttpPostMultipart (base @ ''/upload'') blob]"
  by (simp add: analyzePhoto_def Let_def split_beta showPreview_no_post
      showAnalysisResults_no_post showLoading_no_post split: sum.splits)

lemma upload_failed_iff:
  "upload_failed net \<longleftrightarrow>
     (case net of
        NetworkError _ \<Rightarrow> True
      | Response r \<Rightarrow>
          \<not> response_ok r \<or> body_json r = None \<or> body_json r = Some JNull \<or>
          (\<exists>j v. body_json r = Some j \<and> get_prop j ''erro'' = Value v \<and> truthy v))"
  by (auto simp add: upload_failed_def upload_result_def get_prop_threw
      split: fetch_result.splits option.splits js_access.splits sum.splits)

lemma analyzePhoto_failure:
  assumes "upload_result net = Inl err"
  shows "Alert (AnalysisFailed err) \<in> set (snd (analyzePhoto d (Some base) blob net fault p))"
    and "\<not> list_ex is_render_analysis (snd (analyzePhoto d (Some base) blob net fault p))"
    and "has_previewContainer d \<and> has_previewImage d \<longrightarrow>
         list_ex is_render_preview (snd (analyzePhoto d (Some base) blob net fault p))"
  using assms showPreview_no_analysis [of d blob p] showPreview_renders [of d blob p]
  by (simp_all add: analyzePhoto_def Let_def split_beta showLoading_def)

lemma analyzePhoto_success:
  assumes "upload_result net = Inr result"
  shows "\<not> fault \<longrightarrow>
         RenderAnalysis (next_url p) result \<in> set (snd (analyzePhoto d (Some base) blob net fault p))"
    and "\<forall>e. Alert (AnalysisFailed e) \<notin> set (snd (analyzePhoto d (Some base) blob net fault p))"
  using assms
  by (auto simp add: analyzePhoto_def Let_def split_beta showLoading_def
      showAnalysisResults_def showPreview_def)

lemma http_failure_message:
  assumes "\<not> response_ok r"
  shows "upload_result (Response r) = Inl (HttpFailure (status r) (http_error_details r))"
  using assms by (simp add: upload_result_def)

lemma http_error_details_stringified:
  assumes "body_json r = Some j" and "j \<noteq> JNull"
    and "\<not> (\<exists>v. get_prop j ''erro'' = Value v \<and> truthy v)"
  shows "http_error_details r = Stringified j"
  using assms
  by (auto simp add: http_error_details_def get_prop_threw split: js_access.splits)

lemma showPreview_not_rendered:
  "\<not> (has_previewContainer d \<and> has_previewImage d) \<Longrightarrow>
   \<not> list_ex is_render_preview (snd (showPreview d blob p))"
  by (auto simp add: showPreview_def)

lemma analyzePhoto_failure_no_preview:
  assumes "upload_result net = Inl err" and "\<not> (has_previewContainer d \<and> has_previewImage d)"
  shows "\<not> list_ex is_render_preview (snd (analyzePhoto d (Some base) blob net fault p))"
  using assms showPreview_not_rendered [of d blob p]
  by (simp add: analyzePhoto_def Let_def split_beta showLoading_def)

text \<open>C4, as the code has it: with no endpoint the upload stops with a notice and no
  HTTP request; otherwise exactly one multipart POST goes to <endpoint>/upload. The
  attempt is treated as a failure exactly when the request is rejected, the status is
  not a success, the success body is not JSON or is \<open>null\<close>, or the \<open>erro\<close> member
  of the success body is truthy. In every such failure the error message is shown in a
  notice: the rejection's message; for a non-success status the status with the
  truthy \<open>erro\<close> member of a JSON body, else the re-serialised JSON body, else (the
  body is not JSON or is \<open>null\<close>) the raw body text; for a success status the truthy
  \<open>erro\<close> member, or the parse error. In every failure the full result view is not
  rendered, and the minimal preview is rendered exactly when the page has the preview
  container and image. Without a failure no such notice is shown and the full result
  view is rendered.\<close>

theorem upload_attempt_amended:
  "(analyzePhoto d None blob net fault p =
      (p, showLoading d False @ [SetCaptureDisabled False, Alert ApiUnavailable])
    \<and> \<not> list_ex is_post (snd (analyzePhoto d None blob net fault p)))
 \<and> filter is_post (snd (analyzePhoto d (Some base) blob net fault p)) =
      [HttpPostMultipart (base @ ''/upload'') blob]
 \<and> (upload_failed net \<longleftrightarrow>
      (case net of
         NetworkError _ \<Rightarrow> True
       | Response r \<Rightarrow>
           \<not> response_ok r \<or> body_json r = None \<or> body_json r = Some JNull \<or>
           (\<exists>j v. body_json r = Some j \<and> get_prop j ''erro'' = Value v \<and> truthy v)))
 \<and> (upload_failed net \<longrightarrow>
      (\<exists>err. upload_result net = Inl err
         \<and> Alert (AnalysisFailed err) \<in> set (snd (analyzePhoto d (Some base) blob net fault p))
         \<and> \<not> list_ex is_render_analysis (snd (analyzePhoto d (Some base) blob net fault p))
         \<and> (has_previewContainer d \<and> has_previewImage d \<longrightarrow>
              list_ex is_render_preview (snd (analyzePhoto d (Some base) blob net fault p)))
         \<and> (\<not> (has_previewContainer d \<and> has_previewImage d) \<longrightarrow>
              \<not> list_ex is_render_preview (snd (analyzePhoto d (Some base) blob net fault p)))))
 \<and> (\<forall>r. net = Response r \<and> \<not> response_ok r \<longrightarrow>
      upload_result net = Inl (HttpFailure (status r) (http_error_details r))
      \<and> (\<forall>j v. body_json r = Some j \<and> get_prop j ''erro'' = Value v \<and> truthy v \<longrightarrow>
            http_error_details r = ErroValue v)
      \<and> (\<forall>j. body_json r = Some j \<and> j \<noteq> JNull
               \<and> \<not> (\<exists>v. get_prop j ''erro'' = Value v \<and> truthy v) \<longrightarrow>
            http_error_details r = Stringified j)
      \<and> (body_json r = None \<or> body_json r = Some JNull \<longrightarrow>
            http_error_details r = RawText (body_text r)))
 \<and> (\<forall>j v. net = Response j \<and> response_ok j \<and> body_json j = Some v
        \<and> get_prop v ''erro'' = Value (JStr m) \<and> m \<noteq> [] \<longrightarrow>
      upload_result net = Inl (ErroField (JStr m)))
 \<and> (\<forall>r j v. net = Response r \<and> response_ok r \<and> body_json r = Some j
        \<and> get_prop j ''erro'' = Value v \<and> truthy v \<longrightarrow>
      upload_result net = Inl (ErroField v))
 \<and> (\<forall>msg. net = NetworkError msg \<longrightarrow> upload_result net = Inl (NetworkFailure msg))
 \<and> (\<forall>r. net = Response r \<and> response_ok r \<and> body_json r = None \<longrightarrow>
      upload_result net = Inl InvalidJson)
 \<and> (\<forall>r. net = Response r \<and> response_ok r \<and> body_json r = Some JNull \<longrightarrow>
      upload_result net = Inl NullResult)
 \<and> (\<not> upload_failed net \<longrightarrow>
      (\<forall>e. Alert (AnalysisFailed e) \<notin> set (snd (analyzePhoto d (Some base) blob net fault p)))
      \<and> (\<not> fault \<longrightarrow>
           list_ex is_render_analysis (snd (analyzePhoto d (Some base) blob net fault p))))"
proof -
  have a: "analyzePhoto d None blob net fault p =
      (p, showLoading d False @ [SetCaptureDisabled False, Alert ApiUnavailable])
    \<and> \<not> list_ex is_post (snd (analyzePhoto d None blob net fault p))"
    by (simp add: analyzePhoto_no_endpoint showLoading_def)
  have b: "upload_failed net \<longrightarrow>
      (\<exists>err. upload_result net = Inl err
         \<and> Alert (AnalysisFailed err) \<in> set (snd (analyzePhoto d (Some base) blob net fault p))
         \<and> \<not> list_ex is_render_analysis (snd (analyzePhoto d (Some base) blob net fault p))
         \<and> (has_previewContainer d \<and> has_previewImage d \<longrightarrow>
              list_ex is_render_preview (snd (analyzePhoto d (Some base) blob net fault p)))
         \<and> (\<not> (has_previewContainer d \<and> has_previewImage d) \<longrightarrow>
              \<not> list_ex is_render_preview (snd (analyzePhoto d (Some base) blob net fault p))))"
  proof
    assume "upload_failed net"
    then obtain err where e: "upload_result net = Inl err"
      by (auto simp add: upload_failed_def split: sum.splits)
    from analyzePhoto_failure [OF e, where d = d and base = base and blob = blob
        and fault = fault and p = p]
      analyzePhoto_failure_no_preview [OF e, where d = d and base = base and blob = blob
        and fault = fault and p = p] e
    show "\<exists>err. upload_result net = Inl err
         \<and> Alert (AnalysisFailed err) \<in> set (snd (analyzePhoto d (Some base) blob net fault p))
         \<and> \<not> list_ex is_render_analysis (snd (analyzePhoto d (Some base) blob net fault p))
         \<and> (has_previewContainer d \<and> has_previewImage d \<longrightarrow>
              list_ex is_render_preview (snd (analyzePhoto d (Some base) blob net fault p)))
         \<and> (\<not> (has_previewContainer d \<and> has_previewImage d) \<longrightarrow>
              \<not> list_ex is_render_preview (snd (analyzePhoto d (Some base) blob net fault p)))"
      by blast
  qed
  have c: "\<forall>r. net = Response r \<and> \<not> response_ok r \<longrightarrow>
      upload_result net = Inl (HttpFailure (status r) (http_error_details r))
      \<and> (\<forall>j v. body_json r = Some j \<and> get_prop j ''erro'' = Value v \<and> truthy v \<longrightarrow>
            http_error_details r = ErroValue v)
      \<and> (\<forall>j. body_json r = Some j \<and> j \<noteq> JNull
               \<and> \<not> (\<exists>v. get_prop j ''erro'' = Value v \<and> truthy v) \<longrightarrow>
            http_error_details r = Stringified j)
      \<and> (body_json r = None \<or> body_json r = Some JNull \<longrightarrow>
            http_error_details r = RawText (body_text r))"
  proof (intro allI impI)
    fix r :: response
    assume h: "net = Response r \<and> \<not> response_ok r"
    then have c1: "upload_result net = Inl (HttpFailure (status r) (http_error_details r))"
      by (simp add: http_failure_message)
    have c2: "\<forall>j v. body_json r = Some j \<and> get_prop j ''erro'' = Value v \<and> truthy v \<longrightarrow>
            http_error_details r = ErroValue v"
      by (simp add: http_error_details_def)
    have c3: "\<forall>j. body_json r = Some j \<and> j \<noteq> JNull
               \<and> \<not> (\<exists>v. get_prop j ''erro'' = Value v \<and> truthy v) \<longrightarrow>
            http_error_details r = Stringified j"
      using http_error_details_stringified [of r] by blast
    have c4: "body_json r = None \<or> body_json r = Some JNull \<longrightarrow>
            http_error_details r = RawText (body_text r)"
      by (auto simp add: http_error_details_def)
    from c1 c2 c3 c4
    show "upload_result net = Inl (HttpFailure (status r) (http_error_details r))
      \<and> (\<forall>j v. body_json r = Some j \<and> get_prop j ''erro'' = Value v \<and> truthy v \<longrightarrow>
            http_error_details r = ErroValue v)
      \<and> (\<forall>j. body_json r = Some j \<and> j \<noteq> JNull
               \<and> \<not> (\<exists>v. get_prop j ''erro'' = Value v \<and> truthy v) \<longrightarrow>
            http_error_details r = Stringified j)
      \<and> (body_json r = None \<or> body_json r = Some JNull \<longrightarrow>
            http_error_details r = RawText (body_text r))"
      by blast
  qed
  have d: "\<forall>j v. net = Response j \<and> response_ok j \<and> body_json j = Some v
        \<and> get_prop v ''erro'' = Value (JStr m) \<and> m \<noteq> [] \<longrightarrow>
      upload_result net = Inl (ErroField (JStr m))"
    by (auto simp add: upload_result_def)
  have d2: "\<forall>r j v. net = Response r \<and> response_ok r \<and> body_json r = Some j
        \<and> get_prop j ''erro'' = Value v \<and> truthy v \<longrightarrow>
      upload_result net = Inl (ErroField v)"
    by (auto simp add: upload_result_def)
  have d3: "\<forall>msg. net = NetworkError msg \<longrightarrow> upload_result net = Inl (NetworkFailure msg)"
    by (auto simp add: upload_result_def)
  have d4: "\<forall>r. net = Response r \<and> response_ok r \<and> body_json r = None \<longrightarrow>
      upload_result net = Inl InvalidJson"
    by (auto simp add: upload_result_def)
  have d5: "\<forall>r. net = Response r \<and> response_ok r \<and> body_json r = Some JNull \<longrightarrow>
      upload_result net = Inl NullResult"
    by (auto simp add: upload_result_def)
  have e: "\<not> upload_failed net \<longrightarrow>
      (\<forall>e. Alert (AnalysisFailed e) \<notin> set (snd (analyzePhoto d (Some base) blob net fault p)))
      \<and> (\<not> fault \<longrightarrow>
           list_ex is_render_analysis (snd (analyzePhoto d (Some base) blob net fault p)))"
  proof
    assume "\<not> upload_failed net"
    then obtain result where r: "upload_result net = Inr result"
      by (auto simp add: upload_failed_def split: sum.splits)
    have "\<not> fault \<longrightarrow>
        list_ex is_render_analysis (snd (analyzePhoto d (Some base) blob net fault p))"
      using analyzePhoto_success(1) [OF r, of fault p d base blob]
      by (auto simp add: list_ex_iff intro!: bexI [where x = "RenderAnalysis (next_url p) result"])
    with analyzePhoto_success(2) [OF r]
    show "(\<forall>e. Alert (AnalysisFailed e) \<notin> set (snd (analyzePhoto d (Some base) blob net fault p)))
      \<and> (\<not> fault \<longrightarrow>
           list_ex is_render_analysis (snd (analyzePhoto d (Some base) blob net fault p)))"
      by blast
  qed
  from a b c d d2 d3 d4 d5 e analyzePhoto_one_post [of d base blob net fault p]
    upload_failed_iff [of net]
  show ?thesis
    by (intro conjI) blast+
qed

theorem upload_attempt_amended_witness:
  "upload_failed (Response \<lparr>status = 500, body_text = ''{\"erro\":\"face not found\"}'',
       body_json = Some (JObj [(''erro'', JStr ''face not found'')])\<rparr>)
   \<and> Alert (AnalysisFailed (HttpFailure 500 (ErroValue (JStr ''face not found''))))
       \<in> set (snd (analyzePhoto
            \<lparr>has_loading = True, has_previewContainer = True, has_previewImage = True,
              has_downloadBtn = True, has_retryBtn = True\<rparr>
            (Some ''https://example.org'') 0
            (Response \<lparr>status = 500, body_text = ''{\"erro\":\"face not found\"}'',
               body_json = Some (JObj [(''erro'', JStr ''face not found'')])\<rparr>)
            False init_page))
   \<and> list_ex is_render_preview (snd (analyzePhoto
            \<lparr>has_loading = True, has_previewContainer = True, has_previewImage = True,
              has_downloadBtn = True, has_retryBtn = True\<rparr>
            (Some ''https://example.org'') 0
            (Response \<lparr>status = 500, body_text = ''{\"erro\":\"face not found\"}'',
               body_json = Some (JObj [(''erro'', JStr ''face not found'')])\<rparr>)
            False init_page))
   \<and> \<not> list_ex is_render_analysis (snd (analyzePhoto
            \<lparr>has_loading = True, has_previewContainer = True, has_previewImage = True,
              has_downloadBtn = True, has_retryBtn = True\<rparr>
            (Some ''https://example.org'') 0
            (Response \<lparr>status = 500, body_text = ''{\"erro\":\"face not found\"}'',
               body_json = Some (JObj [(''erro'', JStr ''face not found'')])\<rparr>)
            False init_page))"
  using upload_attempt_amended
    [where net = "Response \<lparr>status = 500, body_text = ''{\"erro\":\"face not found\"}'',
               body_json = Some (JObj [(''erro'', JStr ''face not found'')])\<rparr>"
       and d = "\<lparr>has_loading = True, has_previewContainer = True, has_previewImage = True,
              has_downloadBtn = True, has_retryBtn = True\<rparr>"
       and base = "''https://example.org''" and blob = 0 and fault = False and p = init_page]
  by (auto simp add: response_ok_def)

text \<open>Where the statement of C4 fails: HTTP 200 with a body that is not JSON is treated
  as a failure; HTTP 200 with an empty \<open>erro\<close> member is not; HTTP 500 with a JSON
  body that has no \<open>erro\<close> member puts the re-serialised JSON, not the raw text, in the
  notice; and on a page without the preview container a failed upload renders no
  preview.\<close>

theorem upload_failure_criterion_counterexample:
  "upload_failed (Response \<lparr>status = 200, body_text = ''<html></html>'', body_json = None\<rparr>)
   \<and> \<not> failure_by_status_or_erro
         (Response \<lparr>status = 200, body_text = ''<html></html>'', body_json = None\<rparr>)
   \<and> \<not> upload_failed (Response \<lparr>status = 200, body_text = ''{\"erro\":\"\"}'',
         body_json = Some (JObj [(''erro'', JStr [])])\<rparr>)
   \<and> failure_by_status_or_erro (Response \<lparr>status = 200, body_text = ''{\"erro\":\"\"}'',
         body_json = Some (JObj [(''erro'', JStr [])])\<rparr>)
   \<and> http_error_details \<lparr>status = 500, body_text = ''{ \"detail\" : \"down\" }'',
         body_json = Some (JObj [(''detail'', JStr ''down'')])\<rparr>
       = Stringified (JObj [(''detail'', JStr ''down'')])
   \<and> upload_failed (NetworkError ''offline'')
   \<and> \<not> list_ex is_render_preview (snd (analyzePhoto
         \<lparr>has_loading = True, has_previewContainer = False, has_previewImage = True,
           has_downloadBtn = True, has_retryBtn = True\<rparr>
         (Some ''https://example.org'') 0 (NetworkError ''offline'') False init_page))"
  by (simp add: upload_failed_def upload_result_def failure_by_status_or_erro_def
      has_erro_field_def response_ok_def http_error_details_def analyzePhoto_def
      showPreview_def showLoading_def Let_def)

subsection \<open>Object URLs\<close>

lemma revoke_count_simps [simp]:
  "revoke_count [] u = 0"
  "revoke_count (tr @ es) u = revoke_count tr u + revoke_count es u"
  "revoke_count (e # es) u = (if revokes u e then 1 else 0) + revoke_count es u"
  by (simp_all add: revoke_count_def)

lemma create_count_simps [simp]:
  "create_count [] u = 0"
  "create_count (tr @ es) u = create_count tr u + create_count es u"
  "create_count (e # es) u = (if creates u e then 1 else 0) + create_count es u"
  by (simp_all add: create_count_def)

lemma showLoading_counts [simp]:
  "revoke_count (showLoading d b) u = 0" "create_count (showLoading d b) u = 0"
  by (simp_all add: showLoading_def)

text \<open>A preview rendered and then dismissed by its retry button: the URL it created is
  revoked once.\<close>

lemma preview_then_retry_revokes_once:
  assumes "has_previewContainer d" and "has_previewImage d"
    and "has_downloadBtn d" and "has_retryBtn d"
  shows "revoke_count
           (snd (showPreview d blob p) @
            snd (ui_step d apiUrl (fst (showPreview d blob p)) ClickRetryBtn))
           (next_url p) = 1"
  using assms
  by (simp add: showPreview_def ui_step_def retryPreview_def Let_def)

text \<open>C8 at two concrete runs, on a page that has all its elements. First run: two
  captures whose upload fails, with no click between them, then the retry button of
  the preview. The second \<open>showPreview\<close> rebinds the retry button to its own URL, so
  the URL of the first preview is never revoked although the preview is dismissed.
  Second run: an upload that succeeds with a result that cuts the markup short, then
  the close button. The \<open>catch\<close> of \<open>showAnalysisResults\<close> has revoked the URL, and
  the close button, bound to the same URL and still shown, revokes it again.\<close>

theorem object_url_leaked_and_revoked_twice:
  "create_count (snd (ui_run
       \<lparr>has_loading = True, has_previewContainer = True, has_previewImage = True,
         has_downloadBtn = True, has_retryBtn = True\<rparr>
       (Some ''https://example.org'') (init_page, [])
       [CaptureDone 0 (NetworkError ''offline'') False,
        CaptureDone 1 (NetworkError ''offline'') False, ClickRetryBtn])) 0 = 1
   \<and> revoke_count (snd (ui_run
       \<lparr>has_loading = True, has_previewContainer = True, has_previewImage = True,
         has_downloadBtn = True, has_retryBtn = True\<rparr>
       (Some ''https://example.org'') (init_page, [])
       [CaptureDone 0 (NetworkError ''offline'') False,
        CaptureDone 1 (NetworkError ''offline'') False, ClickRetryBtn])) 0 = 0
   \<and> \<not> preview_visible (fst (ui_run
       \<lparr>has_loading = True, has_previewContainer = True, has_previewImage = True,
         has_downloadBtn = True, has_retryBtn = True\<rparr>
       (Some ''https://example.org'') (init_page, [])
       [CaptureDone 0 (NetworkError ''offline'') False,
        CaptureDone 1 (NetworkError ''offline'') False, ClickRetryBtn]))
   \<and> analysis_visible (fst (ui_run
       \<lparr>has_loading = True, has_previewContainer = True, has_previewImage = True,
         has_downloadBtn = True, has_retryBtn = True\<rparr>
       (Some ''https://example.org'') (init_page, [])
       [CaptureDone 0 (Response \<lparr>status = 200,
           body_text = ''{\"fitzpatrick\":\"<!--\"}'',
           body_json = Some (JObj [(''fitzpatrick'', JStr ''<!--'')])\<rparr>) True]))
   \<and> revoke_count (snd (ui_run
       \<lparr>has_loading = True, has_previewContainer = True, has_previewImage = True,
         has_downloadBtn = True, has_retryBtn = True\<rparr>
       (Some ''https://example.org'') (init_page, [])
       [CaptureDone 0 (Response \<lparr>status = 200,
           body_text = ''{\"fitzpatrick\":\"<!--\"}'',
           body_json = Some (JObj [(''fitzpatrick'', JStr ''<!--'')])\<rparr>) True,
        ClickCloseAnalysis])) 0 = 2"
  by (simp add: ui_step_def analyzePhoto_def upload_result_def response_ok_def
      showPreview_def showAnalysisResults_def retryPreview_def hideAnalysisContainer_def
      showLoading_def init_page_def Let_def)

subsection \<open>Download names\<close>

lemma digit_value_digit_char: "n < 10 \<Longrightarrow> digit_value (digit_char n) = n"
proof -
  assume "n < 10"
  then have "n \<in> {0, 1, 2, 3, 4, 5, 6, 7, 8, 9}"
    by auto
  then show ?thesis
    by (auto simp add: digit_value_def digit_char_def)
qed

lemma decimal_value_snoc: "decimal_value (cs @ [c]) = 10 * decimal_value cs + digit_value c"
  by (simp add: decimal_value_def)

lemma show_nat_decimal: "decimal_value (show_nat n) = n"
proof (induction n rule: show_nat.induct)
  case (1 n)
  show ?case
  proof (cases "n < 10")
    case True
    then show ?thesis
      by (simp add: show_nat.simps [of n] decimal_value_def digit_value_digit_char)
  next
    case False
    with 1 have "decimal_value (show_nat (n div 10)) = n div 10"
      by simp
    with False show ?thesis
      by (simp add: show_nat.simps [of n] decimal_value_snoc digit_value_digit_char)
  qed
qed

lemma download_names_append: "download_names (xs @ ys) = download_names xs @ download_names ys"
proof (induction xs)
  case Nil
  then show ?case by simp
next
  case (Cons e xs)
  then show ?case by (cases e) simp_all
qed

lemma showLoading_downloads [simp]: "download_names (showLoading d b) = []"
  by (simp add: showLoading_def)

lemma showPreview_downloads [simp]: "download_names (snd (showPreview d blob p)) = []"
  by (simp add: showPreview_def Let_def)

lemma showAnalysisResults_downloads [simp]:
  "download_names (snd (showAnalysisResults d blob j fault p)) = []"
  by (simp add: showAnalysisResults_def Let_def split_beta download_names_append)

lemma analyzePhoto_downloads [simp]:
  "download_names (snd (analyzePhoto d apiUrl blob net fault p)) = []"
  by (simp add: analyzePhoto_def Let_def split_beta download_names_append
      split: option.splits sum.splits)

text \<open>C9, as the code has it: the only downloads the page produces come from three
  controls. The download button of the full result view names the image
  \<open>analise-facial-<unix-ms>.png\<close>, the save button names the text report
  \<open>analise-facial-<unix-ms>.txt\<close>, and the download button of the minimal preview
  names the image \<open>face-capture-<unix-ms>.png\<close>; <unix-ms> is \<open>Date.now()\<close> in
  decimal digits.\<close>

theorem download_names_amended:
  "download_names (snd (ui_step d apiUrl p ev)) =
     (case ev of
        ClickDownloadResults now \<Rightarrow>
          if analysis_url p \<noteq> None
          then [''analise-facial-'' @ show_nat now @ ''.png''] else []
      | ClickSaveResults now \<Rightarrow>
          if (\<exists>data. analysis_data p = Some data \<and> \<not> report_throws data)
          then [''analise-facial-'' @ show_nat now @ ''.txt''] else []
      | ClickDownloadBtn now \<Rightarrow>
          if download_btn_url p \<noteq> None
          then [''face-capture-'' @ show_nat now @ ''.png''] else []
      | _ \<Rightarrow> [])
   \<and> decimal_value (show_nat now') = now'"
proof -
  have "download_names (snd (ui_step d apiUrl p ev)) =
     (case ev of
        ClickDownloadResults now \<Rightarrow>
          if analysis_url p \<noteq> None
          then [''analise-facial-'' @ show_nat now @ ''.png''] else []
      | ClickSaveResults now \<Rightarrow>
          if (\<exists>data. analysis_data p = Some data \<and> \<not> report_throws data)
          then [''analise-facial-'' @ show_nat now @ ''.txt''] else []
      | ClickDownloadBtn now \<Rightarrow>
          if download_btn_url p \<noteq> None
          then [''face-capture-'' @ show_nat now @ ''.png''] else []
      | _ \<Rightarrow> [])"
    by (cases ev)
      (auto simp add: ui_step_def hideAnalysisContainer_def retryPreview_def
        downloadImage_def downloadPreview_def saveAnalysisData_def Let_def
        split: option.splits)
  then show ?thesis
    by (simp add: show_nat_decimal)
qed

theorem download_names_amended_witness:
  "download_names (snd (ui_step
       \<lparr>has_loading = True, has_previewContainer = True, has_previewImage = True,
         has_downloadBtn = True, has_retryBtn = True\<rparr>
       (Some ''https://example.org'')
       (init_page\<lparr>next_url := 1, analysis_visible := True, analysis_url := Some 0,
                  analysis_data := Some (JObj [])\<rparr>)
       (ClickDownloadResults 1700000000000)))
     = [''analise-facial-1700000000000.png'']
   \<and> download_names (snd (ui_step
       \<lparr>has_loading = True, has_previewContainer = True, has_previewImage = True,
         has_downloadBtn = True, has_retryBtn = True\<rparr>
       (Some ''https://example.org'')
       (init_page\<lparr>next_url := 1, analysis_visible := True, analysis_url := Some 0,
                  analysis_data := Some (JObj [])\<rparr>)
       (ClickSaveResults 1700000000000)))
     = [''analise-facial-1700000000000.txt'']"
  using download_names_amended
    [of "\<lparr>has_loading = True, has_previewContainer = True, has_previewImage = True,
         has_downloadBtn = True, has_retryBtn = True\<rparr>"
        "Some ''https://example.org''"
        "init_page\<lparr>next_url := 1, analysis_visible := True, analysis_url := Some 0,
                  analysis_data := Some (JObj [])\<rparr>"
        "ClickDownloadResults 1700000000000"]
    download_names_amended
    [of "\<lparr>has_loading = True, has_previewContainer = True, has_previewImage = True,
         has_downloadBtn = True, has_retryBtn = True\<rparr>"
        "Some ''https://example.org''"
        "init_page\<lparr>next_url := 1, analysis_visible := True, analysis_url := Some 0,
                  analysis_data := Some (JObj [])\<rparr>"
        "ClickSaveResults 1700000000000"]
  by (simp add: init_page_def report_throws_def show_nat.simps digit_char_def)

theorem preview_download_name_counterexample:
  "download_names (snd (ui_step
       \<lparr>has_loading = True, has_previewContainer = True, has_previewImage = True,
         has_downloadBtn = True, has_retryBtn = True\<rparr>
       (Some ''https://example.org'')
       (fst (ui_run
          \<lparr>has_loading = True, has_previewContainer = True, has_previewImage = True,
            has_downloadBtn = True, has_retryBtn = True\<rparr>
          (Some ''https://example.org'') (init_page, [])
          [CaptureDone 0 (NetworkError ''offline'') False]))
       (ClickDownloadBtn 1700000000000)))
     = [''face-capture-1700000000000.png'']
   \<and> download_names (snd (ui_step
       \<lparr>has_loading = True, has_previewContainer = True, has_previewImage = True,
         has_downloadBtn = True, has_retryBtn = True\<rparr>
       (Some ''https://example.org'')
       (fst (ui_run
          \<lparr>has_loading = True, has_previewContainer = True, has_previewImage = True,
            has_downloadBtn = True, has_retryBtn = True\<rparr>
          (Some ''https://example.org'') (init_page, [])
          [CaptureDone 0 (NetworkError ''offline'') False]))
       (ClickDownloadBtn 1700000000000)))
     \<noteq> [''analise-facial-1700000000000.png'']"
  by (simp add: ui_step_def analyzePhoto_def upload_result_def showPreview_def
      showLoading_def downloadPreview_def init_page_def Let_def
      show_nat.simps digit_char_def)


subsection \<open>Construction\<close>

text \<open>C10: when the page lacks the video or the canvas element, the constructor returns
  after logging: the controller keeps no state, attaches no listener, registers no
  service worker and sends no health check.\<close>

theorem constructor_missing_elements:
  assumes "\<not> has_video els \<or> \<not> has_canvas els"
  shows "constructor els = (None, [LogMissingElements])
       \<and> \<not> list_ex is_listener (snd (constructor els))
       \<and> \<not> list_ex is_registration (snd (constructor els))
       \<and> \<not> list_ex is_health_check (snd (constructor els))"
  using assms by (auto simp add: constructor_def)

text \<open>With both elements the initialisation does run.\<close>

lemma constructor_complete:
  assumes "has_video els" and "has_canvas els"
  shows "list_ex is_health_check (snd (constructor els))"
    and "sw_supported els \<longrightarrow> list_ex is_registration (snd (constructor els))"
    and "has_captureBtn els \<longrightarrow> list_ex is_listener (snd (constructor els))"
  using assms
  by (simp_all add: constructor_def init_def initEventListeners_def
      registerServiceWorker_def detectApiUrl_def)

theorem constructor_missing_elements_witness:
  "constructor \<lparr>has_video = True, has_canvas = False, has_acceptConsent = True,
       has_switchCamera = True, has_captureBtn = True, sw_supported = True\<rparr>
     = (None, [LogMissingElements])"
  using constructor_missing_elements
    [of "\<lparr>has_video = True, has_canvas = False, has_acceptConsent = True,
       has_switchCamera = True, has_captureBtn = True, sw_supported = True\<rparr>"]
  by simp

subsection \<open>Camera\<close>

text \<open>C5 at a concrete run: the camera is running, the switch button is pressed twice
  before the first of the two requests settles, then both requests are granted. The
  first switch stopped the stream it held; the second found no stream to stop; the
  stream of the first grant is overwritten by the second and never stopped, so two
  streams are live.\<close>

theorem double_switch_two_live_streams:
  "live_streams (cam_run init_camera_state
       [ConsentAccept, Granted 1, SwitchClick, SwitchClick, Granted 1, Granted 1]) = 2"
  by (simp add: cam_step_def initCamera_def switchCamera_def granted_def
      init_camera_state_def live_streams_def Let_def)

text \<open>What each switch does by itself: the tracks of the stream held are stopped and
  the reference cleared before the request, and the facing mode flips.\<close>

lemma switch_stops_before_request:
  "snd (switchCamera c) =
     (case cam_stream c of
        None \<Rightarrow> []
      | Some s \<Rightarrow> map (StopTrack s) [0 ..< length (streams c ! s)] @ [ClearStream])
     @ [RequestStream (if cam_facing c = User then Environment else User)]"
  "cam_stream (fst (switchCamera c)) = None"
  "cam_facing (fst (switchCamera c)) = (if cam_facing c = User then Environment else User)"
  by (simp_all add: switchCamera_def initCamera_def Let_def split: option.splits)


lemma no_live_streams:
  "(\<forall>i < length xs. \<not> list_ex (\<lambda>t. t) (xs ! i)) \<Longrightarrow> filter (list_ex (\<lambda>t. t)) xs = []"
  by (auto simp add: filter_empty_conv in_set_conv_nth)

text \<open>A switch made while no request is pending, from a state where only the held
  stream has live tracks, leaves no live stream, and one at most once its request is
  granted.\<close>

lemma switch_settled_single_stream:
  assumes "pending c = 0"
    and "\<forall>i < length (streams c). cam_stream c \<noteq> Some i \<longrightarrow> \<not> list_ex (\<lambda>t. t) (streams c ! i)"
    and "\<forall>s. cam_stream c = Some s \<longrightarrow> s < length (streams c)"
  shows "live_streams (fst (switchCamera c)) = 0"
    and "live_streams (fst (granted n (fst (switchCamera c)))) \<le> 1"
proof -
  have stopped: "\<forall>i < length (streams (fst (switchCamera c))).
      \<not> list_ex (\<lambda>t. t) (streams (fst (switchCamera c)) ! i)"
    using assms(2,3)
    by (auto simp add: switchCamera_def initCamera_def Let_def nth_list_update list_ex_iff
        split: option.splits)
  then have z: "filter (list_ex (\<lambda>t. t)) (streams (fst (switchCamera c))) = []"
    by (rule no_live_streams)
  then show "live_streams (fst (switchCamera c)) = 0"
    by (simp add: live_streams_def)
  from z show "live_streams (fst (granted n (fst (switchCamera c)))) \<le> 1"
    by (simp add: live_streams_def granted_def)
qed

subsection \<open>Cache worker\<close>

lemma keys_delete: "caches_keys (caches_delete n cs) = filter (\<lambda>k. k \<noteq> n) (caches_keys cs)"
  by (induction cs) (auto simp add: caches_keys_def caches_delete_def)

lemma keys_fold_delete:
  "caches_keys (fold caches_delete ns cs) = filter (\<lambda>k. k \<notin> set ns) (caches_keys cs)"
proof (induction ns arbitrary: cs)
  case Nil
  then show ?case by simp
next
  case (Cons n ns)
  have "filter (\<lambda>k. k \<notin> set ns) (filter (\<lambda>k. k \<noteq> n) (caches_keys cs))
      = filter (\<lambda>k. k \<notin> set (n # ns)) (caches_keys cs)"
    by (induction "caches_keys cs") (auto simp add: filter_filter intro: filter_cong)
  with Cons.IH [of "caches_delete n cs"] show ?case
    by (simp add: keys_delete)
qed

lemma keys_activate:
  "caches_keys (activate cs) = filter (\<lambda>k. k = CACHE_NAME) (caches_keys cs)"
proof -
  have "caches_keys (activate cs)
      = filter (\<lambda>k. k \<notin> set (filter (\<lambda>n. n \<noteq> CACHE_NAME) (caches_keys cs))) (caches_keys cs)"
    by (simp add: activate_def keys_fold_delete)
  also have "\<dots> = filter (\<lambda>k. k = CACHE_NAME) (caches_keys cs)"
    by (rule filter_cong) auto
  finally show ?thesis .
qed

lemma keys_open:
  "caches_keys (caches_open n cs) = (if n \<in> set (caches_keys cs) then caches_keys cs else caches_keys cs @ [n])"
  by (simp add: caches_open_def caches_keys_def)

lemma keys_put: "caches_keys (caches_put n url r cs) = caches_keys (caches_open n cs)"
  by (simp add: caches_put_def caches_keys_def comp_def if_distrib [where f = fst] cong: map_cong)

lemma distinct_single:
  "distinct ks \<Longrightarrow> n \<in> set ks \<Longrightarrow> filter (\<lambda>k. k = n) ks = [n]"
  by (induction ks) (auto simp add: filter_empty_conv)

lemma keys_put_present:
  "n \<in> set (caches_keys cs) \<Longrightarrow> caches_keys (caches_put n url r cs) = caches_keys cs"
  by (simp add: keys_put keys_open)

lemma map_of_put_other:
  "m \<noteq> n \<Longrightarrow> map_of (caches_put n url r cs) m = map_of cs m"
proof -
  assume mn: "m \<noteq> n"
  have a: "map_of (map (\<lambda>nc. if fst nc = n then (fst nc, cache_put url r (snd nc)) else nc) xs) m
      = map_of xs m" for xs
    using mn by (induction xs) auto
  have b: "map_of (caches_open n cs) m = map_of cs m"
    using mn by (simp add: caches_open_def map_add_def split: option.splits)
  from a b show ?thesis
    by (simp add: caches_put_def)
qed

lemma map_of_open_other:
  "m \<noteq> n \<Longrightarrow> map_of (caches_open n cs) m = map_of cs m"
  by (simp add: caches_open_def map_add_def split: option.splits)

lemma fold_put_keys:
  "n \<in> set (caches_keys cs) \<Longrightarrow>
   caches_keys (fold (\<lambda>url acc. case map_of net url of None \<Rightarrow> acc
                                 | Some r \<Rightarrow> caches_put n url r acc) urls cs) = caches_keys cs"
  by (induction urls arbitrary: cs) (auto simp add: keys_put_present split: option.splits)

lemma fold_put_other:
  "m \<noteq> n \<Longrightarrow>
   map_of (fold (\<lambda>url acc. case map_of net url of None \<Rightarrow> acc
                                 | Some r \<Rightarrow> caches_put n url r acc) urls cs) m = map_of cs m"
  by (induction urls arbitrary: cs) (auto simp add: map_of_put_other split: option.splits)

lemma keys_install:
  "caches_keys (fst (install origin net cs)) = caches_keys (caches_open CACHE_NAME cs)"
proof -
  have "CACHE_NAME \<in> set (caches_keys (caches_open CACHE_NAME cs))"
    by (simp add: keys_open)
  then show ?thesis
    by (simp add: install_def Let_def fold_put_keys)
qed

lemma install_other:
  "m \<noteq> CACHE_NAME \<Longrightarrow> map_of (fst (install origin net cs)) m = map_of cs m"
  by (simp add: install_def Let_def fold_put_other map_of_open_other)

lemma keys_sw_fetch:
  "CACHE_NAME \<in> set (caches_keys cs) \<Longrightarrow>
   caches_keys (fst (snd (sw_fetch origin net cs rq))) = caches_keys cs"
  by (simp add: sw_fetch_def Let_def keys_put_present split: option.splits)

lemma sw_fetch_other:
  "m \<noteq> CACHE_NAME \<Longrightarrow> map_of (fst (snd (sw_fetch origin net cs rq))) m = map_of cs m"
  by (simp add: sw_fetch_def Let_def map_of_put_other split: option.splits)

lemma keys_sw_run:
  "CACHE_NAME \<in> set (caches_keys cs) \<Longrightarrow> caches_keys (sw_run origin cs evs) = caches_keys cs"
proof (induction evs arbitrary: cs)
  case Nil
  then show ?case by simp
next
  case (Cons nr evs)
  from Cons.prems have k: "caches_keys (fst (snd (sw_fetch origin (fst nr) cs (snd nr)))) = caches_keys cs"
    by (rule keys_sw_fetch)
  with Cons.prems have "CACHE_NAME \<in> set (caches_keys (fst (snd (sw_fetch origin (fst nr) cs (snd nr)))))"
    by simp
  from Cons.IH [OF this] k show ?case
    by simp
qed

lemma map_of_delete_other:
  "m \<noteq> n \<Longrightarrow> map_of (caches_delete n cs) m = map_of cs m"
  by (induction cs) (auto simp add: caches_delete_def)

lemma map_of_fold_delete:
  "m \<notin> set ns \<Longrightarrow> map_of (fold caches_delete ns cs) m = map_of cs m"
  by (induction ns arbitrary: cs) (auto simp add: map_of_delete_other)

lemma activate_keeps_current: "map_of (activate cs) CACHE_NAME = map_of cs CACHE_NAME"
  by (simp add: activate_def map_of_fold_delete)

text \<open>C7: activation deletes every cache whose name is not the current version name
  and keeps the current one as it is. Install opens the current cache, so after
  install and activation the cache names are exactly the current version name, and
  they stay so under any series of fetch events: install and the write-through of
  the fetch handler change no cache but the current one.\<close>

theorem activate_keeps_only_current:
  assumes "distinct (caches_keys cs)"
  shows "caches_keys (activate cs) = filter (\<lambda>cacheName. cacheName = CACHE_NAME) (caches_keys cs)
       \<and> map_of (activate cs) CACHE_NAME = map_of cs CACHE_NAME
       \<and> caches_keys (activate (fst (install origin net cs))) = [CACHE_NAME]
       \<and> caches_keys (sw_run origin (activate (fst (install origin net cs))) evs) = [CACHE_NAME]
       \<and> (\<forall>m. m \<noteq> CACHE_NAME \<longrightarrow> map_of (fst (install origin net cs)) m = map_of cs m)
       \<and> (\<forall>m net' cs' rq. m \<noteq> CACHE_NAME \<longrightarrow>
             map_of (fst (snd (sw_fetch origin net' cs' rq))) m = map_of cs' m)"
proof -
  let ?cs1 = "fst (install origin net cs)"
  have d: "distinct (caches_keys ?cs1)" and m: "CACHE_NAME \<in> set (caches_keys ?cs1)"
    using assms by (simp_all add: keys_install keys_open)
  then have a: "caches_keys (activate ?cs1) = [CACHE_NAME]"
    by (simp add: keys_activate distinct_single)
  then have "CACHE_NAME \<in> set (caches_keys (activate ?cs1))"
    by simp
  from keys_sw_run [OF this, of origin evs] a
  have b: "caches_keys (sw_run origin (activate ?cs1) evs) = [CACHE_NAME]"
    by simp
  from a b show ?thesis
    by (simp add: keys_activate activate_keeps_current install_other sw_fetch_other)
qed

theorem activate_keeps_only_current_witness:
  "distinct (caches_keys [(''face-capture-v1'', []), (''face-capture-v2'', []), (''tmp'', [])])
   \<and> caches_keys (activate [(''face-capture-v1'', []), (''face-capture-v2'', []), (''tmp'', [])])
       = [''face-capture-v2'']
   \<and> caches_keys (activate (fst (install ''https://app.example'' []
         [(''face-capture-v1'', []), (''tmp'', [])]))) = [''face-capture-v2'']"
  using activate_keeps_only_current
    [of "[(''face-capture-v1'', []), (''face-capture-v2'', []), (''tmp'', [])]"]
    activate_keeps_only_current
    [of "[(''face-capture-v1'', []), (''tmp'', [])]" "''https://app.example''" "[]"]
  by (simp add: caches_keys_def CACHE_NAME_def)

lemma map_of_map_store:
  "map_of (map (\<lambda>nc. if fst nc = n then (fst nc, f (snd nc)) else nc) xs) m
     = (if m = n then map_option f (map_of xs m) else map_of xs m)"
  by (induction xs) auto

lemma map_of_filter_other:
  "k \<noteq> url \<Longrightarrow> map_of (filter (\<lambda>kv. fst kv \<noteq> url) c) k = map_of c k"
  by (induction c) auto

lemma store_lookup_caches_put:
  "store_lookup (caches_put n url r cs) n k
     = (if k = url then Some r else store_lookup cs n k)"
proof -
  have "map_of (caches_open n cs) n = (case map_of cs n of None \<Rightarrow> Some [] | Some c \<Rightarrow> Some c)"
    by (auto simp add: caches_open_def caches_keys_def map_add_def map_of_eq_None_iff
        split: option.splits dest: map_of_SomeD intro: rev_image_eqI)
  then show ?thesis
    by (auto simp add: store_lookup_def caches_put_def map_of_map_store cache_put_def
        map_of_filter_other split: option.splits)
qed

lemma fold_put_lookup:
  assumes "\<forall>u \<in> set urls. map_of net u \<noteq> None"
  shows "store_lookup (fold (\<lambda>url acc. case map_of net url of None \<Rightarrow> acc
                                 | Some r \<Rightarrow> caches_put n url r acc) urls cs) n k
     = (if k \<in> set urls then map_of net k else store_lookup cs n k)"
  using assms
proof (induction urls arbitrary: cs)
  case Nil
  then show ?case by simp
next
  case (Cons u urls)
  then obtain r where r: "map_of net u = Some r"
    by auto
  from Cons.prems have "\<forall>u \<in> set urls. map_of net u \<noteq> None"
    by simp
  from Cons.IH [OF this, of "caches_put n u r cs"] r show ?case
    by (auto simp add: store_lookup_caches_put)
qed

lemma install_offline_cached:
  assumes "install origin net cs = (cs1, True)"
  shows "\<exists>r. map_of net (origin @ OFFLINE_URL) = Some r
           \<and> store_lookup cs1 CACHE_NAME (origin @ OFFLINE_URL) = Some r"
proof -
  let ?urls = "map (\<lambda>path. origin @ path) STATIC_CACHE"
  from assms have ok: "list_all (asset_ok net) ?urls"
    by (auto simp add: install_def Let_def split: if_splits)
  then have all: "\<forall>u \<in> set ?urls. map_of net u \<noteq> None"
    by (auto simp add: list_all_iff asset_ok_def split: option.splits)
  have mem: "origin @ OFFLINE_URL \<in> set ?urls"
    by (simp add: STATIC_CACHE_def OFFLINE_URL_def)
  with all obtain r where r: "map_of net (origin @ OFFLINE_URL) = Some r"
    by auto
  from assms ok have "cs1 = fold (\<lambda>url acc. case map_of net url of None \<Rightarrow> acc
      | Some r \<Rightarrow> caches_put CACHE_NAME url r acc) ?urls (caches_open CACHE_NAME cs)"
    by (simp add: install_def Let_def)
  with fold_put_lookup [OF all, of CACHE_NAME "caches_open CACHE_NAME cs" "origin @ OFFLINE_URL"]
    mem r
  show ?thesis
    by simp
qed

lemma single_cache_match:
  "caches_keys cs = [n] \<Longrightarrow> caches_match cs k = store_lookup cs n k"
  by (cases cs) (auto simp add: caches_keys_def store_lookup_def split: option.splits)

lemma store_lookup_activate:
  "store_lookup (activate cs) CACHE_NAME k = store_lookup cs CACHE_NAME k"
  by (simp add: store_lookup_def activate_keeps_current)

lemma sw_fetch_keeps_offline:
  assumes "caches_keys cs = [CACHE_NAME]" and "store_lookup cs CACHE_NAME k = Some r"
  shows "store_lookup (fst (snd (sw_fetch origin net cs rq))) CACHE_NAME k = Some r"
proof -
  from assms have hit: "caches_match cs k = Some r"
    by (simp add: single_cache_match)
  then have "caches_match cs (strip_fragment (req_url rq)) = None \<Longrightarrow> k \<noteq> strip_fragment (req_url rq)"
    by auto
  with assms(2) show ?thesis
    by (auto simp add: sw_fetch_def Let_def store_lookup_caches_put split: option.splits)
qed

lemma sw_run_keeps_offline:
  assumes "caches_keys cs = [CACHE_NAME]" and "store_lookup cs CACHE_NAME k = Some r"
  shows "caches_keys (sw_run origin cs evs) = [CACHE_NAME]
       \<and> store_lookup (sw_run origin cs evs) CACHE_NAME k = Some r"
  using assms
proof (induction evs arbitrary: cs)
  case Nil
  then show ?case by simp
next
  case (Cons nr evs)
  let ?cs' = "fst (snd (sw_fetch origin (fst nr) cs (snd nr)))"
  from Cons.prems(1) have "CACHE_NAME \<in> set (caches_keys cs)"
    by simp
  then have "caches_keys ?cs' = caches_keys cs"
    by (rule keys_sw_fetch)
  with Cons.prems(1) have k: "caches_keys ?cs' = [CACHE_NAME]"
    by simp
  have l: "store_lookup ?cs' CACHE_NAME k = Some r"
    using sw_fetch_keeps_offline [OF Cons.prems] .
  from Cons.IH [OF k l] show ?case
    by simp
qed

lemma installed_worker_has_offline:
  assumes "distinct (caches_keys cs0)" and "install origin net0 cs0 = (cs1, True)"
  shows "\<exists>r. map_of net0 (origin @ OFFLINE_URL) = Some r
           \<and> caches_match (sw_run origin (activate cs1) evs) (origin @ OFFLINE_URL) = Some r"
proof -
  from install_offline_cached [OF assms(2)] obtain r
    where r: "map_of net0 (origin @ OFFLINE_URL) = Some r"
      "store_lookup cs1 CACHE_NAME (origin @ OFFLINE_URL) = Some r"
    by blast
  have "cs1 = fst (install origin net0 cs0)"
    using assms(2) by simp
  then have d: "distinct (caches_keys cs1)" and m: "CACHE_NAME \<in> set (caches_keys cs1)"
    using assms(1) by (simp_all add: keys_install keys_open)
  then have a: "caches_keys (activate cs1) = [CACHE_NAME]"
    by (simp add: keys_activate distinct_single)
  from r(2) have b: "store_lookup (activate cs1) CACHE_NAME (origin @ OFFLINE_URL) = Some r"
    by (simp add: store_lookup_activate)
  from sw_run_keeps_offline [OF a b, of origin evs] r(1) show ?thesis
    by (auto simp add: single_cache_match)
qed

text \<open>C6, as the code has it: a request that is not GET, not same-origin or whose URL
  contains \<open>/upload\<close> passes through: no response, no cache access. Every other
  request is answered cache-first: a hit is returned with no network fetch. On a miss
  the network is fetched and the response returned; exactly when its status is 200, a
  write of a copy into the current cache is started before the response is returned
  and done after it (it is not awaited), and the copy is then in the current cache. A
  response with any other status is returned without a cache write. When the network
  fetch fails the handler answers with what the caches hold for the offline document
  \<open>/index.html\<close>; in a worker whose install succeeded that is the document cached at
  install, whatever was fetched since.\<close>

theorem sw_fetch_amended:
  "(\<not> intercepted origin rq \<longrightarrow> sw_fetch origin net cs rq = (PassThrough, cs, []))
 \<and> (intercepted origin rq \<longrightarrow>
      (\<forall>cached. caches_match cs (strip_fragment (req_url rq)) = Some cached \<longrightarrow>
         sw_fetch origin net cs rq =
           (RespondWith (Some cached), cs,
            [CacheLookup (strip_fragment (req_url rq)), ReturnResponse]))
    \<and> (caches_match cs (strip_fragment (req_url rq)) = None \<longrightarrow>
         (\<forall>r. map_of net (strip_fragment (req_url rq)) = Some r \<and> resp_status r = 200 \<longrightarrow>
            sw_fetch origin net cs rq =
              (RespondWith (Some r),
               caches_put CACHE_NAME (strip_fragment (req_url rq)) r cs,
               [CacheLookup (strip_fragment (req_url rq)),
                NetworkFetch (strip_fragment (req_url rq)), CacheOpen CACHE_NAME,
                ReturnResponse, CacheWrite CACHE_NAME (strip_fragment (req_url rq))])
          \<and> store_lookup (fst (snd (sw_fetch origin net cs rq))) CACHE_NAME
                (strip_fragment (req_url rq)) = Some r)
       \<and> (\<forall>r. map_of net (strip_fragment (req_url rq)) = Some r \<and> resp_status r \<noteq> 200 \<longrightarrow>
            sw_fetch origin net cs rq =
              (RespondWith (Some r), cs,
               [CacheLookup (strip_fragment (req_url rq)),
                NetworkFetch (strip_fragment (req_url rq)), ReturnResponse]))
       \<and> (map_of net (strip_fragment (req_url rq)) = None \<longrightarrow>
            sw_fetch origin net cs rq =
              (RespondWith (caches_match cs (origin @ OFFLINE_URL)), cs,
               [CacheLookup (strip_fragment (req_url rq)),
                NetworkFetch (strip_fragment (req_url rq)),
                CacheLookup (origin @ OFFLINE_URL), ReturnResponse])
          \<and> (\<forall>cs0 net0 cs1 evs.
                distinct (caches_keys cs0) \<and> install origin net0 cs0 = (cs1, True)
                \<and> cs = sw_run origin (activate cs1) evs \<longrightarrow>
                (\<exists>r. map_of net0 (origin @ OFFLINE_URL) = Some r
                   \<and> fst (sw_fetch origin net cs rq) = RespondWith (Some r))))))"
proof -
  let ?key = "strip_fragment (req_url rq)"
  have pass: "\<not> intercepted origin rq \<longrightarrow> sw_fetch origin net cs rq = (PassThrough, cs, [])"
    by (auto simp add: intercepted_def sw_fetch_def)
  have hit: "intercepted origin rq \<longrightarrow>
      (\<forall>cached. caches_match cs ?key = Some cached \<longrightarrow>
         sw_fetch origin net cs rq =
           (RespondWith (Some cached), cs, [CacheLookup ?key, ReturnResponse]))"
    by (auto simp add: intercepted_def sw_fetch_def Let_def)
  have ok: "intercepted origin rq \<longrightarrow> caches_match cs ?key = None \<longrightarrow>
         (\<forall>r. map_of net ?key = Some r \<and> resp_status r = 200 \<longrightarrow>
            sw_fetch origin net cs rq =
              (RespondWith (Some r), caches_put CACHE_NAME ?key r cs,
               [CacheLookup ?key, NetworkFetch ?key, CacheOpen CACHE_NAME,
                ReturnResponse, CacheWrite CACHE_NAME ?key])
          \<and> store_lookup (fst (snd (sw_fetch origin net cs rq))) CACHE_NAME ?key = Some r)"
    by (auto simp add: intercepted_def sw_fetch_def Let_def store_lookup_caches_put)
  have other: "intercepted origin rq \<longrightarrow> caches_match cs ?key = None \<longrightarrow>
         (\<forall>r. map_of net ?key = Some r \<and> resp_status r \<noteq> 200 \<longrightarrow>
            sw_fetch origin net cs rq =
              (RespondWith (Some r), cs, [CacheLookup ?key, NetworkFetch ?key, ReturnResponse]))"
    by (auto simp add: intercepted_def sw_fetch_def Let_def)
  have fail: "intercepted origin rq \<longrightarrow> caches_match cs ?key = None \<longrightarrow>
         map_of net ?key = None \<longrightarrow>
            sw_fetch origin net cs rq =
              (RespondWith (caches_match cs (origin @ OFFLINE_URL)), cs,
               [CacheLookup ?key, NetworkFetch ?key,
                CacheLookup (origin @ OFFLINE_URL), ReturnResponse])"
    by (auto simp add: intercepted_def sw_fetch_def Let_def)
  have offline: "intercepted origin rq \<longrightarrow> caches_match cs ?key = None \<longrightarrow>
         map_of net ?key = None \<longrightarrow>
         (\<forall>cs0 net0 cs1 evs.
                distinct (caches_keys cs0) \<and> install origin net0 cs0 = (cs1, True)
                \<and> cs = sw_run origin (activate cs1) evs \<longrightarrow>
                (\<exists>r. map_of net0 (origin @ OFFLINE_URL) = Some r
                   \<and> fst (sw_fetch origin net cs rq) = RespondWith (Some r)))"
  proof (intro impI allI)
    fix cs0 net0 cs1 evs
    assume i: "intercepted origin rq" and m: "caches_match cs ?key = None"
      and n: "map_of net ?key = None"
      and h: "distinct (caches_keys cs0) \<and> install origin net0 cs0 = (cs1, True)
                \<and> cs = sw_run origin (activate cs1) evs"
    from h installed_worker_has_offline [of cs0 origin net0 cs1 evs]
    obtain r where r: "map_of net0 (origin @ OFFLINE_URL) = Some r"
        "caches_match cs (origin @ OFFLINE_URL) = Some r"
      by auto
    from fail i m n have "fst (sw_fetch origin net cs rq)
        = RespondWith (caches_match cs (origin @ OFFLINE_URL))"
      by simp
    with r show "\<exists>r. map_of net0 (origin @ OFFLINE_URL) = Some r
                   \<and> fst (sw_fetch origin net cs rq) = RespondWith (Some r)"
      by simp
  qed
  from pass hit ok other fail offline show ?thesis
    by (intro conjI impI allI) blast+
qed

text \<open>Where the statement of C6 fails: a same-origin GET answered 204, a success
  status, is returned with nothing written to the cache; and for a response with
  status 200 the copy is not stored before the response is returned.\<close>

theorem sw_fetch_status_and_order_counterexample:
  "status_success \<lparr>resp_status = 204, resp_body = []\<rparr>
   \<and> sw_fetch ''https://app.example''
        [(''https://app.example/api/ping'', \<lparr>resp_status = 204, resp_body = []\<rparr>)]
        [(''face-capture-v2'', [])]
        \<lparr>req_method = ''GET'', req_url = ''https://app.example/api/ping'',
          req_origin = ''https://app.example''\<rparr>
     = (RespondWith (Some \<lparr>resp_status = 204, resp_body = []\<rparr>),
        [(''face-capture-v2'', [])],
        [CacheLookup ''https://app.example/api/ping'', NetworkFetch ''https://app.example/api/ping'',
         ReturnResponse])
   \<and> status_success \<lparr>resp_status = 200, resp_body = ''body{}''\<rparr>
   \<and> \<not> stored_before_return (snd (snd (sw_fetch ''https://app.example''
        [(''https://app.example/style.css'', \<lparr>resp_status = 200, resp_body = ''body{}''\<rparr>)]
        [(''face-capture-v2'', [])]
        \<lparr>req_method = ''GET'', req_url = ''https://app.example/style.css'',
          req_origin = ''https://app.example''\<rparr>)))"
  by (simp add: sw_fetch_def status_success_def starts_with_def strip_fragment_def
      stored_before_return_def Let_def)


lemma store_lookup_open:
  "store_lookup (caches_open n cs) n k = store_lookup cs n k"
proof (cases "n \<in> set (caches_keys cs)")
  case True
  then show ?thesis by (simp add: caches_open_def)
next
  case False
  then have "map_of cs n = None"
    by (simp add: caches_keys_def map_of_eq_None_iff)
  with False show ?thesis
    by (simp add: store_lookup_def caches_open_def map_add_def)
qed

lemma installed_lookup:
  assumes "distinct (caches_keys cs0)" and "install origin net0 cs0 = (cs1, True)"
  shows "caches_match (activate cs1) k =
     (if k \<in> set (map (\<lambda>path. origin @ path) STATIC_CACHE) then map_of net0 k
      else store_lookup cs0 CACHE_NAME k)"
proof -
  let ?urls = "map (\<lambda>path. origin @ path) STATIC_CACHE"
  from assms(2) have ok: "list_all (asset_ok net0) ?urls"
    by (auto simp add: install_def Let_def split: if_splits)
  then have all: "\<forall>u \<in> set ?urls. map_of net0 u \<noteq> None"
    by (auto simp add: list_all_iff asset_ok_def split: option.splits)
  from assms(2) ok have c: "cs1 = fold (\<lambda>url acc. case map_of net0 url of None \<Rightarrow> acc
      | Some r \<Rightarrow> caches_put CACHE_NAME url r acc) ?urls (caches_open CACHE_NAME cs0)"
    by (simp add: install_def Let_def)
  have "cs1 = fst (install origin net0 cs0)"
    using assms(2) by simp
  then have "distinct (caches_keys cs1)" "CACHE_NAME \<in> set (caches_keys cs1)"
    using assms(1) by (simp_all add: keys_install keys_open)
  then have "caches_keys (activate cs1) = [CACHE_NAME]"
    by (simp add: keys_activate distinct_single)
  then have "caches_match (activate cs1) k = store_lookup cs1 CACHE_NAME k"
    by (simp add: single_cache_match store_lookup_activate)
  also have "\<dots> = (if k \<in> set ?urls then map_of net0 k
      else store_lookup (caches_open CACHE_NAME cs0) CACHE_NAME k)"
    unfolding c using fold_put_lookup [OF all] by simp
  finally show ?thesis
    by (simp add: store_lookup_open)
qed

theorem sw_fetch_amended_witness:
  "intercepted ''https://app.example''
     \<lparr>req_method = ''GET'', req_url = ''https://app.example/photo.png#top'',
       req_origin = ''https://app.example''\<rparr>
   \<and> fst (sw_fetch ''https://app.example'' []
        (sw_run ''https://app.example''
          (activate (fst (install ''https://app.example''
             [(''https://app.example/'', \<lparr>resp_status = 200, resp_body = ''root''\<rparr>),
              (''https://app.example/index.html'', \<lparr>resp_status = 200, resp_body = ''index''\<rparr>),
              (''https://app.example/style.css'', \<lparr>resp_status = 200, resp_body = ''style''\<rparr>),
              (''https://app.example/app.js'', \<lparr>resp_status = 200, resp_body = ''app''\<rparr>),
              (''https://app.example/manifest.json'', \<lparr>resp_status = 200, resp_body = ''manifest''\<rparr>),
              (''https://app.example/icons/icon-512x512.png'', \<lparr>resp_status = 200, resp_body = ''icon''\<rparr>)]
             []))) [])
        \<lparr>req_method = ''GET'', req_url = ''https://app.example/photo.png#top'',
          req_origin = ''https://app.example''\<rparr>)
     = RespondWith (Some \<lparr>resp_status = 200, resp_body = ''index''\<rparr>)"
proof -
  let ?o = "''https://app.example''"
  let ?net0 = "[(''https://app.example/'', \<lparr>resp_status = 200, resp_body = ''root''\<rparr>),
              (''https://app.example/index.html'', \<lparr>resp_status = 200, resp_body = ''index''\<rparr>),
              (''https://app.example/style.css'', \<lparr>resp_status = 200, resp_body = ''style''\<rparr>),
              (''https://app.example/app.js'', \<lparr>resp_status = 200, resp_body = ''app''\<rparr>),
              (''https://app.example/manifest.json'', \<lparr>resp_status = 200, resp_body = ''manifest''\<rparr>),
              (''https://app.example/icons/icon-512x512.png'', \<lparr>resp_status = 200, resp_body = ''icon''\<rparr>)]"
  let ?rq = "\<lparr>req_method = ''GET'', req_url = ''https://app.example/photo.png#top'',
       req_origin = ''https://app.example''\<rparr>"
  define cs1 where "cs1 = fst (install ?o ?net0 [])"
  define cs where "cs = sw_run ?o (activate cs1) []"
  have ok: "snd (install ?o ?net0 [])"
    by (simp add: install_def STATIC_CACHE_def asset_ok_def Let_def)
  then have inst: "install ?o ?net0 [] = (cs1, True)"
    by (simp add: cs1_def prod_eq_iff)
  have d: "distinct (caches_keys ([] :: cache_storage))"
    by (simp add: caches_keys_def)
  have i: "intercepted ?o ?rq"
    by (simp add: intercepted_def starts_with_def)
  have key: "strip_fragment (req_url ?rq) = ''https://app.example/photo.png''"
    by (simp add: strip_fragment_def)
  have miss: "caches_match cs (strip_fragment (req_url ?rq)) = None"
    unfolding key cs_def sw_run.simps installed_lookup [OF d inst]
    by (simp add: STATIC_CACHE_def store_lookup_def)
  have n: "map_of ([] :: network) (strip_fragment (req_url ?rq)) = None"
    by simp
  have idx: "map_of ?net0 (?o @ OFFLINE_URL) = Some \<lparr>resp_status = 200, resp_body = ''index''\<rparr>"
    by (simp add: OFFLINE_URL_def)
  have run: "cs = sw_run ?o (activate cs1) []"
    by (simp add: cs_def)
  from sw_fetch_amended [of ?o ?rq "[]" cs] i miss n
  have "\<forall>cs0 net0 cs1 evs.
          distinct (caches_keys cs0) \<and> install ?o net0 cs0 = (cs1, True)
          \<and> cs = sw_run ?o (activate cs1) evs \<longrightarrow>
          (\<exists>r. map_of net0 (?o @ OFFLINE_URL) = Some r
             \<and> fst (sw_fetch ?o [] cs ?rq) = RespondWith (Some r))"
    by blast
  then have "distinct (caches_keys ([] :: cache_storage)) \<and> install ?o ?net0 [] = (cs1, True)
          \<and> cs = sw_run ?o (activate cs1) [] \<longrightarrow>
          (\<exists>r. map_of ?net0 (?o @ OFFLINE_URL) = Some r
             \<and> fst (sw_fetch ?o [] cs ?rq) = RespondWith (Some r))"
    by (elim allE)
  with d inst run idx have "fst (sw_fetch ?o [] cs ?rq)
      = RespondWith (Some \<lparr>resp_status = 200, resp_body = ''index''\<rparr>)"
    by auto
  then have "fst (sw_fetch ?o [] (sw_run ?o (activate (fst (install ?o ?net0 []))) []) ?rq)
      = RespondWith (Some \<lparr>resp_status = 200, resp_body = ''index''\<rparr>)"
    by (simp only: cs_def cs1_def)
  with i show ?thesis
    by (rule conjI)
qed

end
